theory Spec2Isabelle
  imports Complex_Main
begin

section \<open>Values, exceptions and calls to external collaborators\<close>

text \<open>
  The router is Python code around external collaborators: the embedding provider
  (\<^verbatim>\<open>dashscope.TextEmbedding\<close>), the vector store collection (\<^verbatim>\<open>dashvector\<close>), the HTTP
  client (\<^verbatim>\<open>httpx\<close>) and the MCP streaming client (\<^verbatim>\<open>mcp.client.sse\<close>,
  \<^verbatim>\<open>mcp.ClientSession\<close>). Each function of the source becomes a function from a world
  \<open>'w\<close> to an outcome, a new world and the trace of external calls it issued. The
  collaborators are the fields of environment records, so every theorem about the code
  holds for every behaviour of the collaborators, failures included.
\<close>

text \<open>JSON-shaped Python values. A \<^verbatim>\<open>dict\<close> keeps its insertion order.\<close>

datatype pyval =
    PNone
  | PBool bool
  | PInt int
  | PFloat rat
  | PStr string
  | PList "pyval list"
  | PDict "(string \<times> pyval) list"

text \<open>
  What a Python \<^verbatim>\<open>raise\<close> carries. \<open>Exception msg\<close> is any instance of class
  \<^verbatim>\<open>Exception\<close>, with \<open>msg\<close> its \<^verbatim>\<open>str(e)\<close>; \<open>CancelledError\<close> is
  \<^verbatim>\<open>asyncio.CancelledError\<close>, a \<^verbatim>\<open>BaseException\<close> that \<^verbatim>\<open>except Exception\<close> does not catch.
\<close>

datatype exn = Exception string | CancelledError

type_synonym vector = "rat list"

text \<open>A \<^verbatim>\<open>dashvector.Doc\<close>; the three metadata fields of this program hold strings.\<close>

record doc =
  doc_id :: string
  doc_vector :: vector
  doc_fields :: "(string \<times> string) list"
  doc_score :: rat

text \<open>The response of \<^verbatim>\<open>TextEmbedding.call\<close>: \<open>embeddings\<close> is
  \<^verbatim>\<open>[record['embedding'] for record in rsp.output['embeddings']]\<close>.\<close>

record embedding_rsp =
  status_code :: int
  message :: string
  embeddings :: "vector list"

text \<open>The response of \<^verbatim>\<open>collection.query\<close>: its truth value and \<^verbatim>\<open>rsp.output\<close>.\<close>

record query_rsp =
  rsp_ok :: bool
  rsp_output :: "doc list"

text \<open>What \<^verbatim>\<open>session.call_tool\<close> hands back, by the two attribute probes of the source.\<close>

datatype tool_result =
    HasAsdict "(string \<times> pyval) list"
  | HasDict "(string \<times> pyval) list"
  | Plain pyval

datatype call =
    TextEmbedding_call string
  | Collection_insert doc
  | Collection_query vector int "string list"
  | AsyncClient_post string pyval "(string \<times> string) list"
  | Sse_client_aenter string
  | Sse_client_aexit string
  | ClientSession_aenter
  | ClientSession_aexit
  | ClientSession_initialize
  | ClientSession_call_tool string pyval

datatype status = Returned | Raised exn

type_synonym trace = "(call \<times> status) list"

type_synonym ('w, 'a) io = "'w \<Rightarrow> (exn + 'a) \<times> 'w \<times> trace"

text \<open>The registry's collaborators: \<^verbatim>\<open>TextEmbedding.call\<close>, \<^verbatim>\<open>collection.insert\<close> (the
  truth value of its response) and \<^verbatim>\<open>collection.query\<close>.\<close>

record 'w registry_env =
  embedding_call :: "string \<Rightarrow> 'w \<Rightarrow> (exn + embedding_rsp) \<times> 'w"
  collection_insert :: "doc \<Rightarrow> 'w \<Rightarrow> (exn + bool) \<times> 'w"
  collection_query :: "vector \<Rightarrow> int \<Rightarrow> string list \<Rightarrow> 'w \<Rightarrow> (exn + query_rsp) \<times> 'w"

text \<open>The transports' collaborators. \<open>client_post\<close> yields the body of the response. An
  \<^verbatim>\<open>__aexit__\<close> receives the exception being unwound, if any, and returns whether it
  suppresses it.\<close>

record 'w transport_env =
  client_post :: "string \<Rightarrow> pyval \<Rightarrow> (string \<times> string) list \<Rightarrow> 'w \<Rightarrow> (exn + string) \<times> 'w"
  sse_aenter :: "string \<Rightarrow> 'w \<Rightarrow> (exn + unit) \<times> 'w"
  sse_aexit :: "string \<Rightarrow> exn option \<Rightarrow> 'w \<Rightarrow> (exn + bool) \<times> 'w"
  session_aenter :: "'w \<Rightarrow> (exn + unit) \<times> 'w"
  session_aexit :: "exn option \<Rightarrow> 'w \<Rightarrow> (exn + bool) \<times> 'w"
  session_initialize :: "'w \<Rightarrow> (exn + unit) \<times> 'w"
  session_call_tool :: "string \<Rightarrow> pyval \<Rightarrow> 'w \<Rightarrow> (exn + tool_result) \<times> 'w"

text \<open>The \<^verbatim>\<open>json\<close> module: \<^verbatim>\<open>json.dumps\<close> on JSON-shaped values, and \<^verbatim>\<open>json.loads\<close>,
  which on malformed text raises a \<^verbatim>\<open>JSONDecodeError\<close>, given here by its message.\<close>

record json_module =
  json_dumps :: "pyval \<Rightarrow> string"
  json_loads :: "string \<Rightarrow> string + pyval"

subsection \<open>Sequencing, raising and handling\<close>

definition io_return :: "'a \<Rightarrow> ('w, 'a) io" where
  "io_return x w = (Inr x, w, [])"

definition io_raise :: "exn \<Rightarrow> ('w, 'a) io" where
  "io_raise e w = (Inl e, w, [])"

definition io_bind :: "('w, 'a) io \<Rightarrow> ('a \<Rightarrow> ('w, 'b) io) \<Rightarrow> ('w, 'b) io" where
  "io_bind m f w =
     (case m w of
        (Inl e, w1, t1) \<Rightarrow> (Inl e, w1, t1)
      | (Inr x, w1, t1) \<Rightarrow> (case f x w1 of (r, w2, t2) \<Rightarrow> (r, w2, t1 @ t2)))"

text \<open>An external call: the collaborator runs on the world, and the call is recorded with
  how it ended.\<close>

definition io_call :: "call \<Rightarrow> ('w \<Rightarrow> (exn + 'a) \<times> 'w) \<Rightarrow> ('w, 'a) io" where
  "io_call c f w =
     (case f w of
        (Inl e, w1) \<Rightarrow> (Inl e, w1, [(c, Raised e)])
      | (Inr x, w1) \<Rightarrow> (Inr x, w1, [(c, Returned)]))"

text \<open>\<^verbatim>\<open>try: m  except Exception as e: h(str(e))\<close>. A \<open>CancelledError\<close> passes through.\<close>

definition io_except :: "('w, 'a) io \<Rightarrow> (string \<Rightarrow> ('w, 'a) io) \<Rightarrow> ('w, 'a) io" where
  "io_except m h w =
     (case m w of
        (Inl (Exception msg), w1, t1) \<Rightarrow> (case h msg w1 of (r, w2, t2) \<Rightarrow> (r, w2, t1 @ t2))
      | (Inl CancelledError, w1, t1) \<Rightarrow> (Inl CancelledError, w1, t1)
      | (Inr x, w1, t1) \<Rightarrow> (Inr x, w1, t1))"

text \<open>\<^verbatim>\<open>try: m  finally: fin\<close>. The \<^verbatim>\<open>finally\<close> block runs on every outcome of \<open>m\<close>; when
  it raises, its exception replaces the outcome of \<open>m\<close>.\<close>

definition io_finally :: "('w, 'a) io \<Rightarrow> ('w, unit) io \<Rightarrow> ('w, 'a) io" where
  "io_finally m fin w =
     (case m w of
        (r, w1, t1) \<Rightarrow>
          (case fin w1 of
             (Inl e, w2, t2) \<Rightarrow> (Inl e, w2, t1 @ t2)
           | (Inr u, w2, t2) \<Rightarrow> (r, w2, t1 @ t2)))"

section \<open>discovery\_service.py\<close>

definition quoted :: "string \<Rightarrow> string" where
  "quoted s = [CHR 0x27] @ s @ [CHR 0x27]"

text \<open>\<^verbatim>\<open>_generate_embedding\<close>, called with a \<^verbatim>\<open>str\<close> only: it returns \<^verbatim>\<open>embeddings[0]\<close>,
  an \<^verbatim>\<open>IndexError\<close> when the provider sent no embedding.\<close>

definition generate_embedding :: "'w registry_env \<Rightarrow> string \<Rightarrow> ('w, vector) io" where
  "generate_embedding env text =
     io_bind (io_call (TextEmbedding_call text) (embedding_call env text)) (\<lambda>rsp.
       if status_code rsp \<noteq> 200
       then io_raise (Exception (''Failed to generate embedding: '' @ message rsp))
       else (case embeddings rsp of
               [] \<Rightarrow> io_raise (Exception ''list index out of range'')
             | e # es \<Rightarrow> io_return e))"

definition service_metadata :: "string \<Rightarrow> string \<Rightarrow> string \<Rightarrow> (string \<times> string) list" where
  "service_metadata server_description server_endpoint tools =
     [(''server_description'', server_description),
      (''server_endpoint'', server_endpoint),
      (''tools'', tools)]"

definition add_server :: "'w registry_env \<Rightarrow> string \<Rightarrow> string \<Rightarrow> string \<Rightarrow> string \<Rightarrow> ('w, pyval) io" where
  "add_server env server_name server_description server_endpoint tools =
     io_bind (generate_embedding env server_description) (\<lambda>service_vector.
       let d = \<lparr>doc_id = server_name, doc_vector = service_vector,
                doc_fields = service_metadata server_description server_endpoint tools,
                doc_score = 0\<rparr>
       in io_bind (io_call (Collection_insert d) (collection_insert env d)) (\<lambda>rsp.
            if \<not> rsp
            then io_raise (Exception (''Failed to insert server '' @ quoted server_name
                                      @ '' into DashVector''))
            else io_return (PDict [(''status'', PStr ''success''),
                   (''message'', PStr (''Server '' @ quoted server_name @ '' registered.''))])))"

record search_result =
  server_name :: string
  server_description :: string
  server_endpoint :: string
  tools :: string
  score :: rat

text \<open>\<^verbatim>\<open>doc.fields[k]\<close>: a \<^verbatim>\<open>KeyError\<close>, whose \<^verbatim>\<open>str\<close> is the quoted key, when \<open>k\<close> is absent.\<close>

definition field :: "doc \<Rightarrow> string \<Rightarrow> exn + string" where
  "field d k = (case map_of (doc_fields d) k of
                  None \<Rightarrow> Inl (Exception (quoted k))
                | Some v \<Rightarrow> Inr v)"

definition and_then :: "exn + 'a \<Rightarrow> ('a \<Rightarrow> exn + 'b) \<Rightarrow> exn + 'b" where
  "and_then r f = (case r of Inl e \<Rightarrow> Inl e | Inr x \<Rightarrow> f x)"

definition result_of_doc :: "doc \<Rightarrow> exn + search_result" where
  "result_of_doc d =
     and_then (field d ''server_description'') (\<lambda>descr.
     and_then (field d ''server_endpoint'') (\<lambda>endp.
     and_then (field d ''tools'') (\<lambda>tls.
       Inr \<lparr>server_name = doc_id d, server_description = descr, server_endpoint = endp,
            tools = tls, score = doc_score d\<rparr>)))"

text \<open>The loop \<^verbatim>\<open>for doc in rsp.output: results.append({...})\<close>.\<close>

fun process_results :: "doc list \<Rightarrow> exn + search_result list" where
  "process_results [] = Inr []"
| "process_results (d # ds) =
     and_then (result_of_doc d) (\<lambda>r.
     and_then (process_results ds) (\<lambda>rs. Inr (r # rs)))"

definition output_fields :: "string list" where
  "output_fields = [''server_description'', ''server_endpoint'', ''tools'']"

definition search_server :: "'w registry_env \<Rightarrow> string \<Rightarrow> int \<Rightarrow> ('w, search_result list) io" where
  "search_server env query top_k =
     io_bind (generate_embedding env query) (\<lambda>query_vector.
       io_bind (io_call (Collection_query query_vector top_k output_fields)
                  (collection_query env query_vector top_k output_fields)) (\<lambda>rsp.
         if \<not> rsp_ok rsp then io_raise (Exception ''Failed to query DashVector'')
         else (case process_results (rsp_output rsp) of
                 Inl e \<Rightarrow> io_raise e
               | Inr results \<Rightarrow> io_return results)))"

text \<open>The loop \<^verbatim>\<open>for result in results: if result["server_name"] == server_name: return
  result["server_endpoint"]\<close>: the endpoint of the first match, if any.\<close>

definition exact_match :: "string \<Rightarrow> search_result list \<Rightarrow> string option" where
  "exact_match name results =
     map_option server_endpoint (find (\<lambda>result. server_name result = name) results)"

text \<open>The body of the \<^verbatim>\<open>try\<close> block of \<^verbatim>\<open>get_server_endpoint\<close>: \<open>Some endpoint\<close> when one of
  its two \<^verbatim>\<open>return\<close> statements is reached, \<open>None\<close> when control falls off its end.\<close>

definition probe_both :: "'w registry_env \<Rightarrow> string \<Rightarrow> ('w, string option) io" where
  "probe_both env name =
     io_bind (search_server env name 20) (\<lambda>results.
       case exact_match name results of
         Some endpoint \<Rightarrow> io_return (Some endpoint)
       | None \<Rightarrow>
           io_bind (search_server env [] 100) (\<lambda>general_results.
             io_return (exact_match name general_results)))"

definition not_found :: "string \<Rightarrow> exn" where
  "not_found name = Exception (''Server '' @ quoted name @ '' not found'')"

definition get_server_endpoint :: "'w registry_env \<Rightarrow> string \<Rightarrow> ('w, string) io" where
  "get_server_endpoint env name =
     io_bind (io_except (probe_both env name) (\<lambda>msg. io_return None)) (\<lambda>found.
       case found of
         Some endpoint \<Rightarrow> io_return endpoint
       | None \<Rightarrow> io_raise (not_found name))"

section \<open>mcp\_router.py\<close>

text \<open>The module-level object \<^verbatim>\<open>discovery_service\<close>: the real service, or the mock that the
  module builds when the import of \<^verbatim>\<open>discovery_service\<close> fails.\<close>

datatype discovery = DiscoveryService | MockDiscoveryService

text \<open>The globals of the module: the discovery service and its collaborators, the
  transports' collaborators, the \<^verbatim>\<open>json\<close> module and the flag \<^verbatim>\<open>HAVE_SSE_SUPPORT\<close>.\<close>

record 'w router =
  discovery_service :: discovery
  registry :: "'w registry_env"
  transport :: "'w transport_env"
  json :: json_module
  have_sse_support :: bool


definition registered :: "string \<Rightarrow> pyval" where
  "registered name =
     PDict [(''status'', PStr ''success''),
            (''message'', PStr (''Server '' @ quoted name @ '' registered.''))]"



definition service_get_server_endpoint :: "'w router \<Rightarrow> string \<Rightarrow> ('w, string) io" where
  "service_get_server_endpoint app name =
     (case discovery_service app of
        DiscoveryService \<Rightarrow> get_server_endpoint (registry app) name
      | MockDiscoveryService \<Rightarrow> io_return ''http://example.com/mcp'')"

definition error_payload :: "'w router \<Rightarrow> string \<Rightarrow> string" where
  "error_payload app msg = json_dumps (json app) (PDict [(''error'', PStr msg)])"

text \<open>\<^verbatim>\<open>json.loads(s)\<close> as a step of the program.\<close>

definition decode :: "json_module \<Rightarrow> string \<Rightarrow> exn + pyval" where
  "decode js s = (case json_loads js s of Inl msg \<Rightarrow> Inl (Exception msg) | Inr v \<Rightarrow> Inr v)"





subsection \<open>The request/response transport\<close>

definition json_rpc_request :: "string \<Rightarrow> pyval \<Rightarrow> pyval" where
  "json_rpc_request tool_name parameters =
     PDict [(''jsonrpc'', PStr ''2.0''),
            (''method'', PStr ''tools/call''),
            (''params'', PDict [(''name'', PStr tool_name), (''arguments'', parameters)]),
            (''id'', PInt 1)]"

definition post_headers :: "(string \<times> string) list" where
  "post_headers = [(''Content-Type'', ''application/json'')]"

text \<open>\<^verbatim>\<open>_execute_http_tool\<close>. Opening and closing the \<^verbatim>\<open>httpx.AsyncClient\<close> involve no
  request and are left out; \<^verbatim>\<open>response.json()\<close> is \<^verbatim>\<open>json.loads\<close> of the body.\<close>

definition execute_http_tool :: "'w router \<Rightarrow> string \<Rightarrow> string \<Rightarrow> pyval \<Rightarrow> ('w, string) io" where
  "execute_http_tool app endpoint tool_name parameters =
     io_bind (io_call (AsyncClient_post endpoint (json_rpc_request tool_name parameters) post_headers)
                (client_post (transport app) endpoint (json_rpc_request tool_name parameters)
                   post_headers)) (\<lambda>body.
       case decode (json app) body of
         Inl e \<Rightarrow> io_raise e
       | Inr response_data \<Rightarrow> io_return (json_dumps (json app) response_data))"

subsection \<open>The streaming-session transport\<close>

text \<open>The context managers that \<^verbatim>\<open>_execute_sse_tool\<close> enters.\<close>

datatype resource = Stream string | Session

text \<open>Inside \<^verbatim>\<open>_execute_sse_tool\<close> the state is the world together with the callbacks of the
  \<^verbatim>\<open>AsyncExitStack\<close>, the last one pushed first.\<close>

definition lift_call ::
  "('w \<Rightarrow> (exn + 'a) \<times> 'w) \<Rightarrow> 'w \<times> resource list \<Rightarrow> (exn + 'a) \<times> 'w \<times> resource list" where
  "lift_call f s = (case f (fst s) of (r, w1) \<Rightarrow> (r, w1, snd s))"

definition push_exit :: "resource \<Rightarrow> ('w \<times> resource list, unit) io" where
  "push_exit r s = (Inr (), (fst s, r # snd s), [])"

definition enter_call :: "resource \<Rightarrow> call" where
  "enter_call r = (case r of Stream endpoint \<Rightarrow> Sse_client_aenter endpoint
                    | Session \<Rightarrow> ClientSession_aenter)"

definition exit_call :: "resource \<Rightarrow> call" where
  "exit_call r = (case r of Stream endpoint \<Rightarrow> Sse_client_aexit endpoint
                   | Session \<Rightarrow> ClientSession_aexit)"

definition aenter :: "'w transport_env \<Rightarrow> resource \<Rightarrow> 'w \<Rightarrow> (exn + unit) \<times> 'w" where
  "aenter tenv r = (case r of Stream endpoint \<Rightarrow> sse_aenter tenv endpoint
                     | Session \<Rightarrow> session_aenter tenv)"

definition aexit :: "'w transport_env \<Rightarrow> resource \<Rightarrow> exn option \<Rightarrow> 'w \<Rightarrow> (exn + bool) \<times> 'w" where
  "aexit tenv r = (case r of Stream endpoint \<Rightarrow> sse_aexit tenv endpoint
                    | Session \<Rightarrow> session_aexit tenv)"

text \<open>\<^verbatim>\<open>exit_stack.enter_async_context(cm)\<close>: \<^verbatim>\<open>__aenter__\<close> runs, and only when it has
  returned is \<^verbatim>\<open>__aexit__\<close> pushed on the stack.\<close>

definition enter_async_context ::
  "'w transport_env \<Rightarrow> resource \<Rightarrow> ('w \<times> resource list, unit) io" where
  "enter_async_context tenv r =
     io_bind (io_call (enter_call r) (lift_call (aenter tenv r))) (\<lambda>x. push_exit r)"

text \<open>The loop of \<^verbatim>\<open>AsyncExitStack.__aexit__\<close>: every callback is popped and awaited with
  the exception being unwound; a callback that raises replaces that exception and the loop
  goes on; a callback that returns a true value clears it.\<close>

fun run_exits ::
  "'w transport_env \<Rightarrow> resource list \<Rightarrow> exn option \<Rightarrow> 'w \<Rightarrow> exn option \<times> 'w \<times> trace" where
  "run_exits tenv [] exc w = (exc, w, [])"
| "run_exits tenv (r # rs) exc w =
     (case io_call (exit_call r) (aexit tenv r exc) w of
        (Inl e, w1, t1) \<Rightarrow>
          (case run_exits tenv rs (Some e) w1 of (x, w2, t2) \<Rightarrow> (x, w2, t1 @ t2))
      | (Inr suppress, w1, t1) \<Rightarrow>
          (case run_exits tenv rs (if suppress then None else exc) w1 of
             (x, w2, t2) \<Rightarrow> (x, w2, t1 @ t2)))"

text \<open>\<^verbatim>\<open>exit_stack.aclose()\<close>: the loop above from no exception; what is left pending at its
  end is raised.\<close>

definition aclose :: "'w transport_env \<Rightarrow> ('w \<times> resource list, unit) io" where
  "aclose tenv s =
     (case run_exits tenv (snd s) None (fst s) of
        (None, w1, t) \<Rightarrow> (Inr (), (w1, []), t)
      | (Some e, w1, t) \<Rightarrow> (Inl e, (w1, []), t))"

definition flatten_result :: "tool_result \<Rightarrow> pyval" where
  "flatten_result result =
     (case result of HasAsdict kvs \<Rightarrow> PDict kvs | HasDict kvs \<Rightarrow> PDict kvs | Plain v \<Rightarrow> v)"

definition sse_body :: "'w router \<Rightarrow> string \<Rightarrow> string \<Rightarrow> pyval \<Rightarrow> ('w \<times> resource list, string) io" where
  "sse_body app endpoint tool_name parameters =
     io_bind (enter_async_context (transport app) (Stream endpoint)) (\<lambda>streams.
     io_bind (enter_async_context (transport app) Session) (\<lambda>session.
     io_bind (io_call ClientSession_initialize
                (lift_call (session_initialize (transport app)))) (\<lambda>u.
     io_bind (io_call (ClientSession_call_tool tool_name parameters)
                (lift_call (session_call_tool (transport app) tool_name parameters))) (\<lambda>result.
     io_return (json_dumps (json app) (flatten_result result))))))"

definition execute_sse_tool :: "'w router \<Rightarrow> string \<Rightarrow> string \<Rightarrow> pyval \<Rightarrow> ('w, string) io" where
  "execute_sse_tool app endpoint tool_name parameters w =
     (case io_finally (sse_body app endpoint tool_name parameters) (aclose (transport app)) (w, [])
      of (r, s, t) \<Rightarrow> (r, fst s, t))"

subsection \<open>The dispatcher\<close>

text \<open>\<^verbatim>\<open>str.lower\<close> on the ASCII letters, and the substring test \<^verbatim>\<open>needle in text\<close>.\<close>

definition lower_char :: "char \<Rightarrow> char" where
  "lower_char c =
     (if 65 \<le> (of_char c :: int) \<and> (of_char c :: int) \<le> 90
      then char_of (of_char c + (32 :: int)) else c)"

definition lower :: "string \<Rightarrow> string" where
  "lower s = map lower_char s"

fun contains :: "string \<Rightarrow> string \<Rightarrow> bool" where
  "contains needle [] = (needle = [])"
| "contains needle (c # cs) =
     (take (length needle) (c # cs) = needle \<or> contains needle cs)"

definition is_sse :: "'w router \<Rightarrow> string \<Rightarrow> bool" where
  "is_sse app target_endpoint \<longleftrightarrow> contains ''sse'' (lower target_endpoint) \<and> have_sse_support app"

definition exec_mcp_tool :: "'w router \<Rightarrow> string \<Rightarrow> string \<Rightarrow> pyval \<Rightarrow> ('w, string) io" where
  "exec_mcp_tool app target_server_name target_tool_name parameters =
     io_except
       (io_bind (service_get_server_endpoint app target_server_name) (\<lambda>target_endpoint.
          if is_sse app target_endpoint
          then execute_sse_tool app target_endpoint target_tool_name parameters
          else execute_http_tool app target_endpoint target_tool_name parameters))
       (\<lambda>msg. io_return (error_payload app msg))"

section \<open>The vector store and test doubles\<close>

text \<open>
  Modelled from the spec: the vector store (the \<^verbatim>\<open>dashvector\<close> package, which the sources
  only call) as sections 2, 4.1 and 6 of the specification describe it: records keyed by
  id, and a top-k query that returns the k records nearest to the query vector in
  descending order of score, with the projected fields. A query with \<open>topK \<le> 0\<close> is invalid
  input: the store refuses it, with a response that is false. The similarity function is
  a parameter. The specification names the write an upsert by id, while the sources call
  \<^verbatim>\<open>collection.insert\<close>; what a write does to an id that is already stored is therefore a
  parameter as well: the record is overwritten, or it is kept and the response is true or
  false.
\<close>

datatype on_existing = Overwrite | Keep bool

definition store_upsert :: "doc \<Rightarrow> doc list \<Rightarrow> doc list" where
  "store_upsert d docs = filter (\<lambda>x. doc_id x \<noteq> doc_id d) docs @ [d]"

definition store_write :: "on_existing \<Rightarrow> doc \<Rightarrow> doc list \<Rightarrow> bool \<times> doc list" where
  "store_write mode d docs =
     (case mode of
        Overwrite \<Rightarrow> (True, store_upsert d docs)
      | Keep ok \<Rightarrow>
          if doc_id d \<in> doc_id ` set docs then (ok, docs) else (True, store_upsert d docs))"

definition project :: "string list \<Rightarrow> (string \<times> string) list \<Rightarrow> (string \<times> string) list" where
  "project fs kvs = filter (\<lambda>kv. fst kv \<in> set fs) kvs"

definition scored :: "(vector \<Rightarrow> vector \<Rightarrow> rat) \<Rightarrow> vector \<Rightarrow> string list \<Rightarrow> doc \<Rightarrow> doc" where
  "scored sim q fs d =
     d\<lparr>doc_fields := project fs (doc_fields d), doc_score := sim q (doc_vector d)\<rparr>"

definition store_query ::
  "(vector \<Rightarrow> vector \<Rightarrow> rat) \<Rightarrow> vector \<Rightarrow> int \<Rightarrow> string list \<Rightarrow> doc list \<Rightarrow> doc list" where
  "store_query sim q k fs docs =
     take (nat k) (sort_key (\<lambda>d. - doc_score d) (map (scored sim q fs) docs))"

definition store_answer ::
  "(vector \<Rightarrow> vector \<Rightarrow> rat) \<Rightarrow> vector \<Rightarrow> int \<Rightarrow> string list \<Rightarrow> doc list \<Rightarrow> query_rsp" where
  "store_answer sim q k fs docs =
     (if k \<le> 0 then \<lparr>rsp_ok = False, rsp_output = []\<rparr>
      else \<lparr>rsp_ok = True, rsp_output = store_query sim q k fs docs\<rparr>)"

text \<open>The registry's collaborators over a world that is the list of stored records: an
  embedding provider \<open>emb\<close> and the store above, neither of which raises.\<close>

definition keyed_store ::
  "on_existing \<Rightarrow> (string \<Rightarrow> exn + embedding_rsp) \<Rightarrow> (vector \<Rightarrow> vector \<Rightarrow> rat) \<Rightarrow>
     doc list registry_env" where
  "keyed_store mode emb sim =
     \<lparr>embedding_call = (\<lambda>text w. (emb text, w)),
      collection_insert = (\<lambda>d w. (Inr (fst (store_write mode d w)), snd (store_write mode d w))),
      collection_query = (\<lambda>q k fs w. (Inr (store_answer sim q k fs w), w))\<rparr>"

text \<open>The store with the write of the specification, the upsert.\<close>

definition store_env ::
  "(string \<Rightarrow> exn + embedding_rsp) \<Rightarrow> (vector \<Rightarrow> vector \<Rightarrow> rat) \<Rightarrow> doc list registry_env" where
  "store_env emb sim = keyed_store Overwrite emb sim"

text \<open>Two embedding providers: one that answers every text with a one-dimensional vector
  (the length of the text), and one that answers every request with status 500.\<close>

definition provider_ok :: "string \<Rightarrow> exn + embedding_rsp" where
  "provider_ok text =
     Inr \<lparr>status_code = 200, message = [], embeddings = [[of_nat (length text)]]\<rparr>"

definition provider_down :: "string \<Rightarrow> exn + embedding_rsp" where
  "provider_down text =
     Inr \<lparr>status_code = 500, message = ''Internal error'', embeddings = []\<rparr>"

text \<open>A similarity: the negated squared distance.\<close>

definition closeness :: "vector \<Rightarrow> vector \<Rightarrow> rat" where
  "closeness q v = - sum_list (map (\<lambda>(a, b). (a - b) * (a - b)) (zip q v))"

section \<open>Observations on traces\<close>

text \<open>Each similarity probe starts with exactly one request to the embedding provider, so
  the number of such requests in a trace is the number of probes started.\<close>

definition is_embedding_call :: "call \<times> status \<Rightarrow> bool" where
  "is_embedding_call e = (case fst e of TextEmbedding_call q \<Rightarrow> True | _ \<Rightarrow> False)"

definition embedding_calls :: "trace \<Rightarrow> nat" where
  "embedding_calls t = length (filter is_embedding_call t)"

text \<open>A provider that embeds every text but the empty one, which it refuses.\<close>

definition provider_no_empty :: "string \<Rightarrow> exn + embedding_rsp" where
  "provider_no_empty text =
     (if text = []
      then Inr \<lparr>status_code = 400, message = ''input is empty'', embeddings = []\<rparr>
      else provider_ok text)"

text \<open>The record that \<^verbatim>\<open>add_server\<close> writes for the example service of the specification,
  under \<open>provider_ok\<close>.\<close>

definition svc_a :: doc where
  "svc_a = \<lparr>doc_id = ''svc-a'', doc_vector = [14],
            doc_fields = service_metadata ''weather lookup'' ''http://svc-a/mcp'' ''[]'',
            doc_score = 0\<rparr>"

text \<open>Records that crowd \<open>svc_a\<close> out of a probe: their vector is the embedding of every
  five-letter text, such as the name \<^verbatim>\<open>svc-a\<close>.\<close>

definition decoy :: "nat \<Rightarrow> doc" where
  "decoy i = \<lparr>doc_id = replicate (Suc i) (CHR ''x''), doc_vector = [5],
              doc_fields = service_metadata ''decoy'' ''http://decoy/mcp'' ''[]'',
              doc_score = 0\<rparr>"

definition decoys :: "nat \<Rightarrow> doc list" where
  "decoys n = map decoy [0..<n]"

text \<open>The search results for these records, and the traces of the two probes under
  \<open>provider_ok\<close>.\<close>

definition decoy_hit :: "rat \<Rightarrow> nat \<Rightarrow> search_result" where
  "decoy_hit s i =
     \<lparr>server_name = replicate (Suc i) (CHR ''x''), server_description = ''decoy'',
      server_endpoint = ''http://decoy/mcp'', tools = ''[]'', score = s\<rparr>"

definition svc_a_hit :: "rat \<Rightarrow> search_result" where
  "svc_a_hit s =
     \<lparr>server_name = ''svc-a'', server_description = ''weather lookup'',
      server_endpoint = ''http://svc-a/mcp'', tools = ''[]'', score = s\<rparr>"

definition narrow_trace :: "string \<Rightarrow> trace" where
  "narrow_trace name =
     [(TextEmbedding_call name, Returned),
      (Collection_query [of_nat (length name)] 20 output_fields, Returned)]"

definition broad_trace :: trace where
  "broad_trace =
     [(TextEmbedding_call [], Returned), (Collection_query [0] 100 output_fields, Returned)]"

subsection \<open>A double of the json module\<close>

text \<open>A printer in the format of \<^verbatim>\<open>json.dumps\<close> and a parser, for the texts of the examples:
  strings with the escapes of the quote, the backslash and the newline, and integers as
  the only numbers read. A float is printed as \<^verbatim>\<open>n.0\<close> when it is integral and as a
  quotient otherwise.\<close>

function digits :: "int \<Rightarrow> string" where
  "digits n =
     (if n < 10 then [char_of (48 + n)] else digits (n div 10) @ [char_of (48 + n mod 10)])"
  by pat_completeness auto
termination
  by (relation "measure nat") auto

declare digits.simps [simp del]

definition show_int :: "int \<Rightarrow> string" where
  "show_int i = (if i < 0 then CHR ''-'' # digits (- i) else digits i)"

definition escape_char :: "char \<Rightarrow> string" where
  "escape_char c =
     (if c = CHR 0x22 then [CHR 0x5C, CHR 0x22]
      else if c = CHR 0x5C then [CHR 0x5C, CHR 0x5C]
      else if c = CHR 0x0A then [CHR 0x5C, CHR ''n'']
      else [c])"

definition show_string :: "string \<Rightarrow> string" where
  "show_string s = [CHR 0x22] @ concat (map escape_char s) @ [CHR 0x22]"

definition show_float :: "rat \<Rightarrow> string" where
  "show_float r =
     (case quotient_of r of (n, d) \<Rightarrow>
        if d = 1 then show_int n @ ''.0'' else show_int n @ ''/'' @ show_int d)"

fun join :: "string \<Rightarrow> string list \<Rightarrow> string" where
  "join sep [] = []"
| "join sep [x] = x"
| "join sep (x # y # ys) = x @ sep @ join sep (y # ys)"

fun dumps :: "pyval \<Rightarrow> string" where
  "dumps PNone = ''null''"
| "dumps (PBool b) = (if b then ''true'' else ''false'')"
| "dumps (PInt i) = show_int i"
| "dumps (PFloat r) = show_float r"
| "dumps (PStr s) = show_string s"
| "dumps (PList vs) = ''['' @ join '', '' (map dumps vs) @ '']''"
| "dumps (PDict kvs) =
     ''{'' @ join '', '' (map (\<lambda>kv. show_string (fst kv) @ '': '' @ dumps (snd kv)) kvs) @ ''}''"


definition is_ws :: "char \<Rightarrow> bool" where
  "is_ws c \<longleftrightarrow> c = CHR '' '' \<or> c = CHR 0x0A \<or> c = CHR 0x09 \<or> c = CHR 0x0D"

definition skip_ws :: "string \<Rightarrow> string" where
  "skip_ws cs = dropWhile is_ws cs"

definition is_digit :: "char \<Rightarrow> bool" where
  "is_digit c \<longleftrightarrow> 48 \<le> (of_char c :: int) \<and> (of_char c :: int) \<le> 57"

definition read_digits :: "string \<Rightarrow> int" where
  "read_digits ds = foldl (\<lambda>acc c. 10 * acc + (of_char c - 48)) 0 ds"

definition unescape :: "char \<Rightarrow> char option" where
  "unescape e =
     (if e = CHR 0x22 then Some (CHR 0x22)
      else if e = CHR 0x5C then Some (CHR 0x5C)
      else if e = CHR ''n'' then Some (CHR 0x0A)
      else None)"

fun read_string :: "string \<Rightarrow> string \<Rightarrow> (string \<times> string) option" where
  "read_string acc [] = None"
| "read_string acc [c] = (if c = CHR 0x22 then Some (rev acc, []) else None)"
| "read_string acc (c # d # cs) =
     (if c = CHR 0x22 then Some (rev acc, d # cs)
      else if c = CHR 0x5C
           then (case unescape d of None \<Rightarrow> None | Some x \<Rightarrow> read_string (x # acc) cs)
      else read_string (c # acc) (d # cs))"

definition read_number :: "string \<Rightarrow> (pyval \<times> string) option" where
  "read_number cs =
     (let neg = (cs \<noteq> [] \<and> hd cs = CHR ''-'');
          body = (if neg then tl cs else cs);
          ds = takeWhile is_digit body;
          rest = dropWhile is_digit body
      in if ds = [] \<or> (rest \<noteq> [] \<and> (hd rest = CHR ''.'' \<or> hd rest = CHR ''e'' \<or> hd rest = CHR ''E''))
         then None
         else Some (PInt (if neg then - read_digits ds else read_digits ds), rest))"

definition literal :: "string \<Rightarrow> pyval \<Rightarrow> string \<Rightarrow> (pyval \<times> string) option" where
  "literal word v cs =
     (if take (length word) cs = word then Some (v, drop (length word) cs) else None)"

text \<open>The parser, with the nesting depth and the number of elements bounded by the fuel.\<close>

fun read_value :: "nat \<Rightarrow> string \<Rightarrow> (pyval \<times> string) option"
  and read_elements :: "nat \<Rightarrow> string \<Rightarrow> (pyval list \<times> string) option"
  and read_members :: "nat \<Rightarrow> string \<Rightarrow> ((string \<times> pyval) list \<times> string) option" where
  "read_value 0 cs = None"
| "read_value (Suc n) cs =
     (case skip_ws cs of
        [] \<Rightarrow> None
      | c # rest \<Rightarrow>
          if c = CHR ''n'' then literal ''null'' PNone (c # rest)
          else if c = CHR ''t'' then literal ''true'' (PBool True) (c # rest)
          else if c = CHR ''f'' then literal ''false'' (PBool False) (c # rest)
          else if c = CHR 0x22
               then map_option (\<lambda>p. (PStr (fst p), snd p)) (read_string [] rest)
          else if c = CHR ''[''
               then (if take 1 (skip_ws rest) = '']'' then Some (PList [], drop 1 (skip_ws rest))
                     else map_option (\<lambda>p. (PList (fst p), snd p)) (read_elements n rest))
          else if c = CHR ''{''
               then (if take 1 (skip_ws rest) = ''}'' then Some (PDict [], drop 1 (skip_ws rest))
                     else map_option (\<lambda>p. (PDict (fst p), snd p)) (read_members n rest))
          else read_number (c # rest))"
| "read_elements 0 cs = None"
| "read_elements (Suc n) cs =
     (case read_value n cs of
        None \<Rightarrow> None
      | Some (v, rest) \<Rightarrow>
          if take 1 (skip_ws rest) = '','' 
          then map_option (\<lambda>p. (v # fst p, snd p)) (read_elements n (drop 1 (skip_ws rest)))
          else if take 1 (skip_ws rest) = '']'' then Some ([v], drop 1 (skip_ws rest))
          else None)"
| "read_members 0 cs = None"
| "read_members (Suc n) cs =
     (if take 1 (skip_ws cs) \<noteq> [CHR 0x22] then None
      else case read_string [] (drop 1 (skip_ws cs)) of
        None \<Rightarrow> None
      | Some (k, rest) \<Rightarrow>
          if take 1 (skip_ws rest) \<noteq> '':'' then None
          else (case read_value n (drop 1 (skip_ws rest)) of
                  None \<Rightarrow> None
                | Some (v, rest2) \<Rightarrow>
                    if take 1 (skip_ws rest2) = '',''
                    then map_option (\<lambda>p. ((k, v) # fst p, snd p))
                           (read_members n (drop 1 (skip_ws rest2)))
                    else if take 1 (skip_ws rest2) = ''}''
                    then Some ([(k, v)], drop 1 (skip_ws rest2))
                    else None))"

definition loads :: "string \<Rightarrow> string + pyval" where
  "loads s =
     (case read_value (Suc (length s)) s of
        None \<Rightarrow> Inl ''Expecting value''
      | Some (v, rest) \<Rightarrow> if skip_ws rest = [] then Inr v else Inl ''Extra data'')"

definition json_double :: json_module where
  "json_double = \<lparr>json_dumps = dumps, json_loads = loads\<rparr>"

text \<open>A remote service that answers every request.\<close>

definition remote_ok :: "doc list transport_env" where
  "remote_ok =
     \<lparr>client_post = (\<lambda>url body hdrs w.
        (Inr (dumps (PDict [(''jsonrpc'', PStr ''2.0''), (''id'', PInt 1),
                            (''result'', PDict [(''temperature'', PInt 21)])])), w)),
      sse_aenter = (\<lambda>url w. (Inr (), w)),
      sse_aexit = (\<lambda>url exc w. (Inr False, w)),
      session_aenter = (\<lambda>w. (Inr (), w)),
      session_aexit = (\<lambda>exc w. (Inr False, w)),
      session_initialize = (\<lambda>w. (Inr (), w)),
      session_call_tool = (\<lambda>tool_name parameters w.
        (Inr (HasDict [(''content'', PList [PStr ''sunny'']), (''isError'', PBool False)]), w))\<rparr>"

text \<open>The resources a trace acquires (an \<^verbatim>\<open>__aenter__\<close> that returned) and the resources
  it releases (an \<^verbatim>\<open>__aexit__\<close> that was called), each in the order of the trace; and the
  outbound HTTP requests.\<close>

definition acquired_by :: "call \<times> status \<Rightarrow> resource list" where
  "acquired_by e =
     (case e of
        (Sse_client_aenter endpoint, Returned) \<Rightarrow> [Stream endpoint]
      | (ClientSession_aenter, Returned) \<Rightarrow> [Session]
      | _ \<Rightarrow> [])"

definition released_by :: "call \<times> status \<Rightarrow> resource list" where
  "released_by e =
     (case fst e of
        Sse_client_aexit endpoint \<Rightarrow> [Stream endpoint]
      | ClientSession_aexit \<Rightarrow> [Session]
      | _ \<Rightarrow> [])"

definition acquired :: "trace \<Rightarrow> resource list" where
  "acquired t = concat (map acquired_by t)"

definition released :: "trace \<Rightarrow> resource list" where
  "released t = concat (map released_by t)"

definition is_post :: "call \<times> status \<Rightarrow> bool" where
  "is_post e = (case fst e of AsyncClient_post url body hdrs \<Rightarrow> True | _ \<Rightarrow> False)"

text \<open>A router over the store, with the answering remote service and the codec double.\<close>

definition router_double :: "doc list router" where
  "router_double =
     \<lparr>discovery_service = DiscoveryService, registry = store_env provider_ok closeness,
      transport = remote_ok, json = json_double, have_sse_support = True\<rparr>"

text \<open>Remote services whose session refuses the initialization handshake, and whose tool
  call is cancelled while it is awaited.\<close>

definition refusing_remote :: "doc list transport_env" where
  "refusing_remote =
     remote_ok\<lparr>session_initialize := (\<lambda>w. (Inl (Exception ''handshake refused''), w))\<rparr>"

definition cancelled_remote :: "doc list transport_env" where
  "cancelled_remote = remote_ok\<lparr>session_call_tool := (\<lambda>n p w. (Inl CancelledError, w))\<rparr>"

definition refused_trace :: trace where
  "refused_trace =
     [(Sse_client_aenter ''http://svc-b/sse'', Returned), (ClientSession_aenter, Returned),
      (ClientSession_initialize, Raised (Exception ''handshake refused'')),
      (ClientSession_aexit, Returned), (Sse_client_aexit ''http://svc-b/sse'', Returned)]"

definition cancelled_trace :: trace where
  "cancelled_trace =
     [(Sse_client_aenter ''http://svc-b/sse'', Returned), (ClientSession_aenter, Returned),
      (ClientSession_initialize, Returned),
      (ClientSession_call_tool ''getWeather'' (PDict [(''city'', PStr ''Paris'')]),
       Raised CancelledError),
      (ClientSession_aexit, Returned), (Sse_client_aexit ''http://svc-b/sse'', Returned)]"

text \<open>A remote service whose answer carries an \<^verbatim>\<open>error\<close> member.\<close>

definition error_body :: pyval where
  "error_body = PDict [(''jsonrpc'', PStr ''2.0''), (''id'', PInt 1),
       (''error'', PDict [(''code'', PInt (- 32601)), (''message'', PStr ''Method not found'')])]"

definition erring_remote :: "doc list transport_env" where
  "erring_remote = remote_ok\<lparr>client_post := (\<lambda>url body hdrs w. (Inr (dumps error_body), w))\<rparr>"

text \<open>A trace in which some external call was cancelled, and computations that raise
  \<open>CancelledError\<close> only when one of their external calls did.\<close>

definition cancelled_in :: "trace \<Rightarrow> bool" where
  "cancelled_in t \<longleftrightarrow> (\<exists>c. (c, Raised CancelledError) \<in> set t)"

definition traces_cancellation :: "('w, 'a) io \<Rightarrow> bool" where
  "traces_cancellation m \<longleftrightarrow> (\<forall>w w1 t. m w = (Inl CancelledError, w1, t) \<longrightarrow> cancelled_in t)"

text \<open>A remote service that cannot be reached, and a registered service whose endpoint
  carries the streaming marker in upper case.\<close>

definition unreachable_remote :: "doc list transport_env" where
  "unreachable_remote =
     remote_ok\<lparr>client_post := (\<lambda>url body hdrs w. (Inl (Exception ''All connection attempts failed''), w))\<rparr>"


text \<open>The record that \<^verbatim>\<open>add_server\<close> hands to \<^verbatim>\<open>collection.insert\<close>, the trace of a
  registration, and the record of an earlier registration of \<^verbatim>\<open>svc-a\<close>.\<close>

definition registered_doc :: "string \<Rightarrow> vector \<Rightarrow> string \<Rightarrow> string \<Rightarrow> string \<Rightarrow> doc" where
  "registered_doc name v descr endpoint tls =
     \<lparr>doc_id = name, doc_vector = v, doc_fields = service_metadata descr endpoint tls,
      doc_score = 0\<rparr>"

definition insert_trace :: "string \<Rightarrow> doc \<Rightarrow> trace" where
  "insert_trace descr d = [(TextEmbedding_call descr, Returned), (Collection_insert d, Returned)]"

definition svc_a_old :: doc where
  "svc_a_old = \<lparr>doc_id = ''svc-a'', doc_vector = [8],
                doc_fields = service_metadata ''forecast'' ''http://old-a/mcp'' ''[]'',
                doc_score = 0\<rparr>"









section \<open>Properties of the registry\<close>

lemma search_server_trace:
  "search_server env q k w = (r, w1, t) \<Longrightarrow>
     (\<exists>st. t = [(TextEmbedding_call q, st)]) \<or>
     (\<exists>v st. t = [(TextEmbedding_call q, Returned), (Collection_query v k output_fields, st)])"
  by (auto simp: search_server_def generate_embedding_def io_bind_def io_call_def io_raise_def
      io_return_def split: prod.splits sum.splits if_splits list.splits)

lemma search_server_embedding_calls:
  "search_server env q k w = (r, w1, t) \<Longrightarrow> embedding_calls t = 1"
  by (drule search_server_trace) (auto simp: embedding_calls_def is_embedding_call_def)

lemma embedding_calls_append:
  "embedding_calls (t1 @ t2) = embedding_calls t1 + embedding_calls t2"
  by (simp add: embedding_calls_def)

lemma exact_match_Some:
  "exact_match name results = Some endpoint \<Longrightarrow>
     \<exists>r \<in> set results. server_name r = name \<and> server_endpoint r = endpoint"
  by (auto simp: exact_match_def find_Some_iff)

lemma exact_match_None:
  "exact_match name results = None \<longleftrightarrow> name \<notin> server_name ` set results"
  by (auto simp: exact_match_def find_None_iff)

lemma exact_match_present:
  "name \<in> server_name ` set results \<Longrightarrow>
     \<exists>r \<in> set results. server_name r = name \<and> exact_match name results = Some (server_endpoint r)"
proof -
  assume "name \<in> server_name ` set results"
  then have "exact_match name results \<noteq> None"
    by (simp add: exact_match_None)
  then obtain endpoint where "exact_match name results = Some endpoint"
    by blast
  then show ?thesis
    using exact_match_Some by fastforce
qed

text \<open>
  C10. In \<^verbatim>\<open>get_server_endpoint\<close> both probes sit under one \<^verbatim>\<open>except Exception\<close>. When the
  narrow probe raises an exception, the lookup ends with the not-found error and its
  trace is the trace of the narrow probe alone, a single embedding request: the broad
  probe is not attempted. When the narrow probe returns without an exact match and the
  broad probe raises, the lookup ends with the not-found error as well. In both cases the
  message of the underlying failure is lost.
\<close>

theorem get_server_endpoint_probe_raises:
  "(search_server env name 20 w = (Inl (Exception msg), w1, t1) \<longrightarrow>
      get_server_endpoint env name w = (Inl (not_found name), w1, t1) \<and>
      embedding_calls t1 = 1) \<and>
   (search_server env name 20 w = (Inr results, w1, t1) \<and>
    name \<notin> server_name ` set results \<and>
    search_server env [] 100 w1 = (Inl (Exception msg), w2, t2) \<longrightarrow>
      get_server_endpoint env name w = (Inl (not_found name), w2, t1 @ t2))"
  by (auto simp: get_server_endpoint_def probe_both_def io_bind_def io_except_def io_raise_def
      io_return_def search_server_embedding_calls exact_match_None [symmetric])

theorem get_server_endpoint_probe_raises_witness:
  "get_server_endpoint (store_env provider_down closeness) ''ghost'' [] =
     (Inl (not_found ''ghost''), [], [(TextEmbedding_call ''ghost'', Returned)]) \<and>
   get_server_endpoint (store_env provider_no_empty closeness) ''ghost'' [] =
     (Inl (not_found ''ghost''), [],
      [(TextEmbedding_call ''ghost'', Returned),
       (Collection_query [5] 20 output_fields, Returned),
       (TextEmbedding_call [], Returned)])"
proof -
  have narrow_down: "search_server (store_env provider_down closeness) ''ghost'' 20 [] =
      (Inl (Exception ''Failed to generate embedding: Internal error''), [],
       [(TextEmbedding_call ''ghost'', Returned)])"
    by code_simp
  have narrow_ok: "search_server (store_env provider_no_empty closeness) ''ghost'' 20 [] =
      (Inr [], [], [(TextEmbedding_call ''ghost'', Returned),
                    (Collection_query [5] 20 output_fields, Returned)])"
    by code_simp
  have broad_down: "search_server (store_env provider_no_empty closeness) [] 100 [] =
      (Inl (Exception ''Failed to generate embedding: input is empty''), [],
       [(TextEmbedding_call [], Returned)])"
    by code_simp
  show ?thesis
    using get_server_endpoint_probe_raises
            [of "store_env provider_down closeness" "''ghost''" "[]" _ "[]" _ "[]"]
          get_server_endpoint_probe_raises
            [of "store_env provider_no_empty closeness" "''ghost''" "[]" _ "[]" _ "[]"]
          narrow_down narrow_ok broad_down
    by simp
qed

text \<open>
  C2, as stated, fails: with the embedding provider down, resolving an unregistered
  identity ends with the not-found error after a single embedding request. No query
  reaches the store and the broad probe is never started.
\<close>

theorem get_server_endpoint_not_found_after_one_probe:
  "get_server_endpoint (store_env provider_down closeness) ''unregistered-id'' [] =
     (Inl (Exception ''Server 'unregistered-id' not found''), [],
      [(TextEmbedding_call ''unregistered-id'', Returned)])"
  by code_simp

text \<open>
  C2, amended. Whenever the probes themselves return, \<^verbatim>\<open>get_server_endpoint\<close> follows the
  two-probe algorithm: (a) if the narrow probe (the identity as query, top 20) returns a
  result whose name equals the identity, the lookup returns the endpoint of such a result
  and issues nothing else; (b) otherwise, if the broad probe (the empty query, top 100)
  returns such a result, the lookup returns its endpoint; (c) otherwise the lookup raises
  the not-found error, and exactly two probes have been started.
\<close>

theorem get_server_endpoint_algorithm:
  "(search_server env name 20 w = (Inr results, w1, t1) \<and>
    name \<in> server_name ` set results \<longrightarrow>
      (\<exists>r \<in> set results. server_name r = name \<and>
         get_server_endpoint env name w = (Inr (server_endpoint r), w1, t1))) \<and>
   (search_server env name 20 w = (Inr results, w1, t1) \<and>
    name \<notin> server_name ` set results \<and>
    search_server env [] 100 w1 = (Inr general_results, w2, t2) \<and>
    name \<in> server_name ` set general_results \<longrightarrow>
      (\<exists>r \<in> set general_results. server_name r = name \<and>
         get_server_endpoint env name w = (Inr (server_endpoint r), w2, t1 @ t2))) \<and>
   (search_server env name 20 w = (Inr results, w1, t1) \<and>
    name \<notin> server_name ` set results \<and>
    search_server env [] 100 w1 = (Inr general_results, w2, t2) \<and>
    name \<notin> server_name ` set general_results \<longrightarrow>
      get_server_endpoint env name w = (Inl (not_found name), w2, t1 @ t2) \<and>
      embedding_calls (t1 @ t2) = 2)"
proof (intro conjI impI)
  assume a: "search_server env name 20 w = (Inr results, w1, t1) \<and>
    name \<in> server_name ` set results"
  then obtain r where "r \<in> set results" "server_name r = name"
    "exact_match name results = Some (server_endpoint r)"
    using exact_match_present by blast
  with a show "\<exists>r \<in> set results. server_name r = name \<and>
         get_server_endpoint env name w = (Inr (server_endpoint r), w1, t1)"
    by (auto simp: get_server_endpoint_def probe_both_def io_bind_def io_except_def io_return_def
        intro!: bexI [of _ r])
next
  assume b: "search_server env name 20 w = (Inr results, w1, t1) \<and>
    name \<notin> server_name ` set results \<and>
    search_server env [] 100 w1 = (Inr general_results, w2, t2) \<and>
    name \<in> server_name ` set general_results"
  then obtain r where "r \<in> set general_results" "server_name r = name"
    "exact_match name general_results = Some (server_endpoint r)"
    using exact_match_present by blast
  moreover from b have "exact_match name results = None"
    by (simp add: exact_match_None)
  ultimately show "\<exists>r \<in> set general_results. server_name r = name \<and>
         get_server_endpoint env name w = (Inr (server_endpoint r), w2, t1 @ t2)"
    using b
    by (auto simp: get_server_endpoint_def probe_both_def io_bind_def io_except_def io_return_def
        intro!: bexI [of _ r])
next
  assume c: "search_server env name 20 w = (Inr results, w1, t1) \<and>
    name \<notin> server_name ` set results \<and>
    search_server env [] 100 w1 = (Inr general_results, w2, t2) \<and>
    name \<notin> server_name ` set general_results"
  then have "exact_match name results = None" "exact_match name general_results = None"
    by (simp_all add: exact_match_None)
  with c show "get_server_endpoint env name w = (Inl (not_found name), w2, t1 @ t2)"
    by (simp add: get_server_endpoint_def probe_both_def io_bind_def io_except_def io_return_def
        io_raise_def)
  from c have "embedding_calls t1 = 1"
    using search_server_embedding_calls [of env name 20 w "Inr results" w1 t1] by simp
  moreover from c have "embedding_calls t2 = 1"
    using search_server_embedding_calls [of env "[]" 100 w1 "Inr general_results" w2 t2] by simp
  ultimately show "embedding_calls (t1 @ t2) = 2"
    by (simp add: embedding_calls_append)
qed

theorem get_server_endpoint_algorithm_witness:
  "(search_server (store_env provider_ok closeness) ''svc-a'' 20 [svc_a] =
      (Inr [svc_a_hit (- 81)], [svc_a], narrow_trace ''svc-a'') \<and>
    ''svc-a'' \<in> server_name ` set [svc_a_hit (- 81)] \<and>
    (\<exists>r \<in> set [svc_a_hit (- 81)]. server_name r = ''svc-a'' \<and>
       get_server_endpoint (store_env provider_ok closeness) ''svc-a'' [svc_a] =
         (Inr (server_endpoint r), [svc_a], narrow_trace ''svc-a''))) \<and>
   (search_server (store_env provider_ok closeness) ''svc-a'' 20 (decoys 20 @ [svc_a]) =
      (Inr (map (decoy_hit 0) [0..<20]), decoys 20 @ [svc_a], narrow_trace ''svc-a'') \<and>
    ''svc-a'' \<notin> server_name ` set (map (decoy_hit 0) [0..<20]) \<and>
    search_server (store_env provider_ok closeness) [] 100 (decoys 20 @ [svc_a]) =
      (Inr (map (decoy_hit (- 25)) [0..<20] @ [svc_a_hit (- 196)]), decoys 20 @ [svc_a],
       broad_trace) \<and>
    (\<exists>r \<in> set (map (decoy_hit (- 25)) [0..<20] @ [svc_a_hit (- 196)]). server_name r = ''svc-a'' \<and>
       get_server_endpoint (store_env provider_ok closeness) ''svc-a'' (decoys 20 @ [svc_a]) =
         (Inr (server_endpoint r), decoys 20 @ [svc_a], narrow_trace ''svc-a'' @ broad_trace))) \<and>
   (search_server (store_env provider_ok closeness) ''ghost'' 20 [svc_a] =
      (Inr [svc_a_hit (- 81)], [svc_a], narrow_trace ''ghost'') \<and>
    search_server (store_env provider_ok closeness) [] 100 [svc_a] =
      (Inr [svc_a_hit (- 196)], [svc_a], broad_trace) \<and>
    ''ghost'' \<notin> server_name ` set [svc_a_hit (- 81)] \<and>
    ''ghost'' \<notin> server_name ` set [svc_a_hit (- 196)] \<and>
    get_server_endpoint (store_env provider_ok closeness) ''ghost'' [svc_a] =
      (Inl (not_found ''ghost''), [svc_a], narrow_trace ''ghost'' @ broad_trace) \<and>
    embedding_calls (narrow_trace ''ghost'' @ broad_trace) = 2)"
proof -
  have a: "search_server (store_env provider_ok closeness) ''svc-a'' 20 [svc_a] =
      (Inr [svc_a_hit (- 81)], [svc_a], narrow_trace ''svc-a'')"
    by code_simp
  have a': "''svc-a'' \<in> server_name ` set [svc_a_hit (- 81)]"
    by (simp add: svc_a_hit_def)
  have b: "search_server (store_env provider_ok closeness) ''svc-a'' 20 (decoys 20 @ [svc_a]) =
      (Inr (map (decoy_hit 0) [0..<20]), decoys 20 @ [svc_a], narrow_trace ''svc-a'')"
    by code_simp
  have b': "''svc-a'' \<notin> server_name ` set (map (decoy_hit 0) [0..<20])"
    by (auto simp: decoy_hit_def)
  have b2: "search_server (store_env provider_ok closeness) [] 100 (decoys 20 @ [svc_a]) =
      (Inr (map (decoy_hit (- 25)) [0..<20] @ [svc_a_hit (- 196)]), decoys 20 @ [svc_a],
       broad_trace)"
    by code_simp
  have b2': "''svc-a'' \<in> server_name ` set (map (decoy_hit (- 25)) [0..<20] @ [svc_a_hit (- 196)])"
    by (simp add: svc_a_hit_def)
  have c: "search_server (store_env provider_ok closeness) ''ghost'' 20 [svc_a] =
      (Inr [svc_a_hit (- 81)], [svc_a], narrow_trace ''ghost'')"
    by code_simp
  have c2: "search_server (store_env provider_ok closeness) [] 100 [svc_a] =
      (Inr [svc_a_hit (- 196)], [svc_a], broad_trace)"
    by code_simp
  have c': "''ghost'' \<notin> server_name ` set [svc_a_hit (- 81)]"
    "''ghost'' \<notin> server_name ` set [svc_a_hit (- 196)]"
    by (simp_all add: svc_a_hit_def)
  note thm_a = get_server_endpoint_algorithm
    [of "store_env provider_ok closeness" "''svc-a''" "[svc_a]" "[svc_a_hit (- 81)]" "[svc_a]"
        "narrow_trace ''svc-a''", THEN conjunct1, rule_format, OF conjI, OF a a']
  note thm_b = get_server_endpoint_algorithm
    [of "store_env provider_ok closeness" "''svc-a''" "decoys 20 @ [svc_a]"
        "map (decoy_hit 0) [0..<20]" "decoys 20 @ [svc_a]" "narrow_trace ''svc-a''"
        "map (decoy_hit (- 25)) [0..<20] @ [svc_a_hit (- 196)]" "decoys 20 @ [svc_a]" broad_trace,
     THEN conjunct2, THEN conjunct1, rule_format]
  note thm_c = get_server_endpoint_algorithm
    [of "store_env provider_ok closeness" "''ghost''" "[svc_a]" "[svc_a_hit (- 81)]" "[svc_a]"
        "narrow_trace ''ghost''" "[svc_a_hit (- 196)]" "[svc_a]" broad_trace,
     THEN conjunct2, THEN conjunct2, rule_format]
  from thm_a thm_b thm_c a a' b b' b2 b2' c c2 c' show ?thesis
    by blast
qed

text \<open>
  C7, as stated, fails: \<^verbatim>\<open>search_server\<close> does not reject \<open>top_k = 0\<close> before querying. The
  query text is embedded and \<^verbatim>\<open>collection.query\<close> is called with \<open>topk = 0\<close>; it is the
  refusal of that call by the store, a response that is false, that makes
  \<^verbatim>\<open>search_server\<close> raise \<^verbatim>\<open>Failed to query DashVector\<close>.
\<close>

theorem search_server_top_k_zero_calls_query:
  "search_server (store_env provider_ok closeness) ''weather'' 0 [svc_a] =
     (Inl (Exception ''Failed to query DashVector''), [svc_a],
      [(TextEmbedding_call ''weather'', Returned),
       (Collection_query [7] 0 output_fields, Returned)])"
  by code_simp

text \<open>
  C7, amended. \<^verbatim>\<open>search_server\<close> does not inspect \<open>top_k\<close>: for every query text and every
  \<open>top_k\<close>, zero and negative ones included, once the text has been embedded
  \<^verbatim>\<open>collection.query\<close> is called with that \<open>top_k\<close> unchanged; an invalid \<open>top_k\<close> is rejected
  only through the store's refusal of that call.
\<close>

theorem search_server_passes_top_k:
  "generate_embedding env query w = (Inr v, w1, t1) \<Longrightarrow>
     \<exists>r w2 st. search_server env query top_k w =
        (r, w2, t1 @ [(Collection_query v top_k output_fields, st)])"
  by (auto simp: search_server_def io_bind_def io_call_def io_raise_def
      io_return_def split: prod.splits sum.splits if_splits list.splits)

theorem search_server_passes_top_k_witness:
  "generate_embedding (store_env provider_ok closeness) ''weather'' [svc_a] =
     (Inr [7], [svc_a], [(TextEmbedding_call ''weather'', Returned)]) \<and>
   (\<exists>r w2 st. search_server (store_env provider_ok closeness) ''weather'' (- 1) [svc_a] =
      (r, w2, [(TextEmbedding_call ''weather'', Returned),
               (Collection_query [7] (- 1) output_fields, st)]))"
proof -
  have h: "generate_embedding (store_env provider_ok closeness) ''weather'' [svc_a] =
     (Inr [7], [svc_a], [(TextEmbedding_call ''weather'', Returned)])"
    by code_simp
  from search_server_passes_top_k [OF h, of "- 1"] h show ?thesis
    by simp
qed

section \<open>Properties of the transports\<close>

lemma acquired_append [simp]: "acquired (t1 @ t2) = acquired t1 @ acquired t2"
  by (simp add: acquired_def)

lemma released_append [simp]: "released (t1 @ t2) = released t1 @ released t2"
  by (simp add: released_def)

lemma acquired_Nil [simp]: "acquired [] = []"
  by (simp add: acquired_def)

lemma released_Nil [simp]: "released [] = []"
  by (simp add: released_def)

lemma acquired_Cons: "acquired (e # t) = acquired_by e @ acquired t"
  by (simp add: acquired_def)

lemma released_Cons: "released (e # t) = released_by e @ released t"
  by (simp add: released_def)

lemma io_call_trace: "io_call c f w = (r, w1, t) \<Longrightarrow> \<exists>st. t = [(c, st)]"
  by (auto simp: io_call_def split: prod.splits sum.splits)

lemma exit_event:
  "released_by (exit_call r, st) = [r]" "acquired_by (exit_call r, st) = []"
  "\<not> is_post (exit_call r, st)"
  by (cases r; simp add: released_by_def acquired_by_def is_post_def exit_call_def)+

lemma run_exits_trace:
  "run_exits tenv stack exc w = (x, w1, t) \<Longrightarrow>
     released t = stack \<and> acquired t = [] \<and> filter is_post t = []"
proof (induction stack arbitrary: exc w x w1 t)
  case Nil
  then show ?case by simp
next
  case (Cons r rs)
  obtain o1 wa ta where c: "io_call (exit_call r) (aexit tenv r exc) w = (o1, wa, ta)"
    by (metis prod.exhaust)
  obtain st where ta: "ta = [(exit_call r, st)]"
    using io_call_trace [OF c] by auto
  define exc' where "exc' = (case o1 of Inl e \<Rightarrow> Some e
                              | Inr suppress \<Rightarrow> if suppress then None else exc)"
  obtain x' w' tr where rest: "run_exits tenv rs exc' wa = (x', w', tr)"
    by (metis prod.exhaust)
  with Cons.prems c have t: "t = ta @ tr"
    by (auto simp: exc'_def split: sum.splits if_splits)
  from Cons.IH [OF rest] ta t show ?case
    by (simp add: released_Cons acquired_Cons exit_event)
qed



lemma io_bind_Inl: "m w = (Inl e, w1, t1) \<Longrightarrow> io_bind m f w = (Inl e, w1, t1)"
  by (simp add: io_bind_def)

lemma io_bind_Inr:
  "m w = (Inr x, w1, t1) \<Longrightarrow> io_bind m f w = (case f x w1 of (r, w2, t2) \<Rightarrow> (r, w2, t1 @ t2))"
  by (simp add: io_bind_def)

lemma enter_async_context_Inl:
  "aenter tenv res w = (Inl e, w1) \<Longrightarrow>
     enter_async_context tenv res (w, stack) = (Inl e, (w1, stack), [(enter_call res, Raised e)])"
  by (simp add: enter_async_context_def io_bind_def io_call_def lift_call_def)

lemma enter_async_context_Inr:
  "aenter tenv res w = (Inr u, w1) \<Longrightarrow>
     enter_async_context tenv res (w, stack) =
       (Inr (), (w1, res # stack), [(enter_call res, Returned)])"
  by (simp add: enter_async_context_def io_bind_def io_call_def lift_call_def push_exit_def)

lemma lifted_call_Inl:
  "f w = (Inl e, w1) \<Longrightarrow> io_call c (lift_call f) (w, stack) = (Inl e, (w1, stack), [(c, Raised e)])"
  by (simp add: io_call_def lift_call_def)

lemma lifted_call_Inr:
  "f w = (Inr x, w1) \<Longrightarrow> io_call c (lift_call f) (w, stack) = (Inr x, (w1, stack), [(c, Returned)])"
  by (simp add: io_call_def lift_call_def)

lemma sse_body_shapes:
  assumes "sse_body app endpoint tool_name parameters (w, []) = (r, (w1, stack), t)"
  shows "(\<exists>e. r = Inl e \<and> stack = [] \<and> t = [(Sse_client_aenter endpoint, Raised e)]) \<or>
     (\<exists>e. r = Inl e \<and> stack = [Stream endpoint] \<and>
        t = [(Sse_client_aenter endpoint, Returned), (ClientSession_aenter, Raised e)]) \<or>
     (\<exists>e. r = Inl e \<and> stack = [Session, Stream endpoint] \<and>
        t = [(Sse_client_aenter endpoint, Returned), (ClientSession_aenter, Returned),
             (ClientSession_initialize, Raised e)]) \<or>
     (\<exists>e. r = Inl e \<and> stack = [Session, Stream endpoint] \<and>
        t = [(Sse_client_aenter endpoint, Returned), (ClientSession_aenter, Returned),
             (ClientSession_initialize, Returned),
             (ClientSession_call_tool tool_name parameters, Raised e)]) \<or>
     (\<exists>result. r = Inr (json_dumps (json app) (flatten_result result)) \<and>
        stack = [Session, Stream endpoint] \<and>
        t = [(Sse_client_aenter endpoint, Returned), (ClientSession_aenter, Returned),
             (ClientSession_initialize, Returned),
             (ClientSession_call_tool tool_name parameters, Returned)])"
proof -
  let ?tenv = "transport app"
  obtain a wa where A: "aenter ?tenv (Stream endpoint) w = (a, wa)" by (metis prod.exhaust)
  show ?thesis
  proof (cases a)
    case (Inl e)
    with A assms show ?thesis
      by (auto simp: sse_body_def io_bind_Inl enter_async_context_Inl enter_call_def)
  next
    case (Inr u)
    note a = enter_async_context_Inr [OF A [unfolded Inr]]
    obtain b wb where B: "aenter ?tenv Session wa = (b, wb)" by (metis prod.exhaust)
    show ?thesis
    proof (cases b)
      case (Inl e)
      with a B assms show ?thesis
        by (auto simp: sse_body_def io_bind_Inl io_bind_Inr enter_async_context_Inl enter_call_def)
    next
      case (Inr u2)
      note b = enter_async_context_Inr [OF B [unfolded Inr]]
      obtain c wc where C: "session_initialize ?tenv wb = (c, wc)" by (metis prod.exhaust)
      show ?thesis
      proof (cases c)
        case (Inl e)
        with a b C assms show ?thesis
          by (auto simp: sse_body_def io_bind_Inl io_bind_Inr lifted_call_Inl enter_call_def)
      next
        case (Inr u3)
        note c = lifted_call_Inr [where f = "session_initialize ?tenv" and w = wb, OF C [unfolded Inr]]
        obtain d wd where D: "session_call_tool ?tenv tool_name parameters wc = (d, wd)"
          by (metis prod.exhaust)
        show ?thesis
        proof (cases d)
          case (Inl e)
          with a b c D assms show ?thesis
            by (auto simp: sse_body_def io_bind_Inl io_bind_Inr lifted_call_Inl enter_call_def)
        next
          case (Inr result)
          with a b c D assms show ?thesis
            by (auto simp: sse_body_def io_bind_Inr lifted_call_Inr enter_call_def io_return_def)
        qed
      qed
    qed
  qed
qed

lemma run_exits_events:
  "run_exits tenv stack exc w = (x, w1, t) \<Longrightarrow> e \<in> set t \<Longrightarrow> \<exists>r. fst e = exit_call r"
proof (induction stack arbitrary: exc w x w1 t)
  case Nil
  then show ?case by simp
next
  case (Cons r rs)
  obtain o1 wa ta where c: "io_call (exit_call r) (aexit tenv r exc) w = (o1, wa, ta)"
    by (metis prod.exhaust)
  obtain st where ta: "ta = [(exit_call r, st)]"
    using io_call_trace [OF c] by auto
  define exc' where "exc' = (case o1 of Inl e \<Rightarrow> Some e
                              | Inr suppress \<Rightarrow> if suppress then None else exc)"
  obtain x' w' tr where rest: "run_exits tenv rs exc' wa = (x', w', tr)"
    by (metis prod.exhaust)
  with Cons.prems c have t: "t = ta @ tr"
    by (auto simp: exc'_def split: sum.splits if_splits)
  with Cons.prems(2) ta Cons.IH [OF rest] show ?case
    by auto
qed

lemma execute_sse_tool_split:
  assumes "execute_sse_tool app endpoint tool_name parameters w = (r, w1, t)"
  obtains rb wb stack tb x tx where
    "sse_body app endpoint tool_name parameters (w, []) = (rb, (wb, stack), tb)"
    "run_exits (transport app) stack None wb = (x, w1, tx)"
    "t = tb @ tx"
    "r = (case x of None \<Rightarrow> rb | Some e \<Rightarrow> Inl e)"
proof -
  obtain rb wb stack tb where body:
    "sse_body app endpoint tool_name parameters (w, []) = (rb, (wb, stack), tb)"
    by (metis prod.exhaust)
  obtain x wx tx where exits: "run_exits (transport app) stack None wb = (x, wx, tx)"
    by (metis prod.exhaust)
  from assms body exits have "t = tb @ tx" "wx = w1" "r = (case x of None \<Rightarrow> rb | Some e \<Rightarrow> Inl e)"
    by (auto simp: execute_sse_tool_def io_finally_def aclose_def
        split: prod.splits sum.splits option.splits)
  with body exits that show thesis
    by blast
qed

lemma execute_sse_tool_trace:
  assumes "execute_sse_tool app endpoint tool_name parameters w = (r, w1, t)"
  shows "released t = rev (acquired t) \<and> filter is_post t = [] \<and>
     (\<exists>st t'. t = (Sse_client_aenter endpoint, st) # t') \<and>
     ((\<exists>e. (ClientSession_initialize, Raised e) \<in> set t) \<longrightarrow>
        released t = [Session, Stream endpoint])"
  using assms
proof (cases rule: execute_sse_tool_split)
  case (1 rb wb stack tb x tx)
  have init: "(ClientSession_initialize, Raised e) \<notin> set tx" for e
  proof
    assume "(ClientSession_initialize, Raised e) \<in> set tx"
    from run_exits_events [OF 1(2) this] obtain res where "ClientSession_initialize = exit_call res"
      by auto
    then show False
      by (cases res) (simp_all add: exit_call_def)
  qed
  from sse_body_shapes [OF 1(1)] run_exits_trace [OF 1(2)] 1(3) init show ?thesis
    by (auto simp: acquired_Cons released_Cons acquired_by_def released_by_def is_post_def)
qed

lemma released_member:
  "Stream endpoint \<in> set (released t) \<Longrightarrow> \<exists>st. (Sse_client_aexit endpoint, st) \<in> set t"
  by (induction t)
     (auto simp: released_Cons released_by_def split: call.splits)

lemma execute_sse_tool_phases:
  assumes "execute_sse_tool app endpoint tool_name parameters w = (r, w1, t)"
  shows "\<exists>tb tx. t = tb @ tx \<and> released tb = [] \<and> acquired tx = []"
  using assms
proof (cases rule: execute_sse_tool_split)
  case (1 rb wb stack tb x tx)
  from sse_body_shapes [OF 1(1)] have "released tb = []"
    by (auto simp: released_Cons released_by_def)
  with run_exits_trace [OF 1(2)] 1(3) show ?thesis
    by blast
qed

text \<open>
  C3. Whatever the outcome of \<^verbatim>\<open>_execute_sse_tool\<close> (a result, an exception raised at any
  step, or a cancellation), the resources released in its trace are exactly the resources
  acquired in it, in reverse order of acquisition; every release comes after every
  acquisition; and when the session initialization raises, the stream opened before it is
  closed.
\<close>

theorem execute_sse_tool_releases:
  assumes "execute_sse_tool app endpoint tool_name parameters w = (r, w1, t)"
  shows "released t = rev (acquired t) \<and>
     (\<exists>tb tx. t = tb @ tx \<and> released tb = [] \<and> acquired tx = []) \<and>
     ((\<exists>e. (ClientSession_initialize, Raised e) \<in> set t) \<longrightarrow>
        (\<exists>st. (Sse_client_aexit endpoint, st) \<in> set t))"
proof -
  from execute_sse_tool_trace [OF assms]
  have rel: "released t = rev (acquired t)"
    and init: "(\<exists>e. (ClientSession_initialize, Raised e) \<in> set t) \<longrightarrow>
        released t = [Session, Stream endpoint]"
    by blast+
  have "(\<exists>e. (ClientSession_initialize, Raised e) \<in> set t) \<longrightarrow>
        (\<exists>st. (Sse_client_aexit endpoint, st) \<in> set t)"
  proof
    assume "\<exists>e. (ClientSession_initialize, Raised e) \<in> set t"
    with init have "Stream endpoint \<in> set (released t)" by simp
    then show "\<exists>st. (Sse_client_aexit endpoint, st) \<in> set t"
      by (rule released_member)
  qed
  with rel execute_sse_tool_phases [OF assms] show ?thesis
    by blast
qed

theorem execute_sse_tool_releases_witness:
  "execute_sse_tool (router_double\<lparr>transport := refusing_remote\<rparr>) ''http://svc-b/sse''
      ''getWeather'' (PDict [(''city'', PStr ''Paris'')]) [] =
     (Inl (Exception ''handshake refused''), [], refused_trace) \<and>
   released refused_trace = rev (acquired refused_trace) \<and>
   (\<exists>e. (ClientSession_initialize, Raised e) \<in> set refused_trace) \<and>
   (\<exists>st. (Sse_client_aexit ''http://svc-b/sse'', st) \<in> set refused_trace) \<and>
   execute_sse_tool (router_double\<lparr>transport := cancelled_remote\<rparr>) ''http://svc-b/sse''
      ''getWeather'' (PDict [(''city'', PStr ''Paris'')]) [] =
     (Inl CancelledError, [], cancelled_trace) \<and>
   released cancelled_trace = rev (acquired cancelled_trace)"
proof -
  have run: "execute_sse_tool (router_double\<lparr>transport := refusing_remote\<rparr>) ''http://svc-b/sse''
      ''getWeather'' (PDict [(''city'', PStr ''Paris'')]) [] =
     (Inl (Exception ''handshake refused''), [], refused_trace)"
    by code_simp
  have failed: "\<exists>e. (ClientSession_initialize, Raised e) \<in> set refused_trace"
    by (simp add: refused_trace_def)
  have cancelled: "execute_sse_tool (router_double\<lparr>transport := cancelled_remote\<rparr>)
      ''http://svc-b/sse'' ''getWeather'' (PDict [(''city'', PStr ''Paris'')]) [] =
     (Inl CancelledError, [], cancelled_trace)"
    by code_simp
  from execute_sse_tool_releases [OF run] execute_sse_tool_releases [OF cancelled]
    run failed cancelled show ?thesis
    by blast
qed

lemma execute_http_tool_run:
  "execute_http_tool app endpoint tool_name parameters w =
     (case client_post (transport app) endpoint (json_rpc_request tool_name parameters)
             post_headers w of
        (Inl e, w1) \<Rightarrow>
          (Inl e, w1,
           [(AsyncClient_post endpoint (json_rpc_request tool_name parameters) post_headers,
             Raised e)])
      | (Inr body, w1) \<Rightarrow>
          (case json_loads (json app) body of
             Inl msg \<Rightarrow> Inl (Exception msg)
           | Inr response_data \<Rightarrow> Inr (json_dumps (json app) response_data),
           w1,
           [(AsyncClient_post endpoint (json_rpc_request tool_name parameters) post_headers,
             Returned)]))"
  by (simp add: execute_http_tool_def io_bind_def io_call_def io_raise_def io_return_def
      decode_def split: prod.splits sum.splits)

lemma execute_http_tool_trace:
  "\<exists>r w1 st. execute_http_tool app endpoint tool_name parameters w =
     (r, w1, [(AsyncClient_post endpoint (json_rpc_request tool_name parameters) post_headers, st)])"
  by (simp add: execute_http_tool_run split: prod.splits sum.splits)

text \<open>
  C8. \<^verbatim>\<open>_execute_http_tool\<close> issues exactly one external call, whatever its outcome: one
  POST to the endpoint whose body is the envelope with \<^verbatim>\<open>jsonrpc\<close> "2.0", method
  "tools/call", the operation name and the arguments as params, and the fixed id 1. When
  the response body decodes to a value, the result is the serialization of that very
  value, whatever its members are.
\<close>

theorem execute_http_tool_envelope:
  "(\<exists>r w1 st. execute_http_tool app endpoint tool_name parameters w =
      (r, w1,
       [(AsyncClient_post endpoint
           (PDict [(''jsonrpc'', PStr ''2.0''),
                   (''method'', PStr ''tools/call''),
                   (''params'', PDict [(''name'', PStr tool_name), (''arguments'', parameters)]),
                   (''id'', PInt 1)])
           [(''Content-Type'', ''application/json'')], st)])) \<and>
   (client_post (transport app) endpoint
       (PDict [(''jsonrpc'', PStr ''2.0''),
               (''method'', PStr ''tools/call''),
               (''params'', PDict [(''name'', PStr tool_name), (''arguments'', parameters)]),
               (''id'', PInt 1)])
       [(''Content-Type'', ''application/json'')] w = (Inr body, w1) \<and>
    json_loads (json app) body = Inr response_data \<longrightarrow>
      fst (execute_http_tool app endpoint tool_name parameters w) =
        Inr (json_dumps (json app) response_data))"
  using execute_http_tool_trace [of app endpoint tool_name parameters w]
  by (auto simp: execute_http_tool_run json_rpc_request_def post_headers_def)

theorem execute_http_tool_envelope_witness:
  "client_post (transport (router_double\<lparr>transport := erring_remote\<rparr>)) ''http://svc-a/mcp''
       (PDict [(''jsonrpc'', PStr ''2.0''),
               (''method'', PStr ''tools/call''),
               (''params'', PDict [(''name'', PStr ''getWeather''),
                                   (''arguments'', PDict [(''city'', PStr ''Paris'')])]),
               (''id'', PInt 1)])
       [(''Content-Type'', ''application/json'')] [] = (Inr (dumps error_body), []) \<and>
   json_loads (json (router_double\<lparr>transport := erring_remote\<rparr>)) (dumps error_body) =
     Inr error_body \<and>
   fst (execute_http_tool (router_double\<lparr>transport := erring_remote\<rparr>) ''http://svc-a/mcp''
          ''getWeather'' (PDict [(''city'', PStr ''Paris'')]) []) =
     Inr (json_dumps (json (router_double\<lparr>transport := erring_remote\<rparr>)) error_body)"
proof -
  let ?app = "router_double\<lparr>transport := erring_remote\<rparr>"
  have post: "client_post (transport ?app) ''http://svc-a/mcp''
       (PDict [(''jsonrpc'', PStr ''2.0''),
               (''method'', PStr ''tools/call''),
               (''params'', PDict [(''name'', PStr ''getWeather''),
                                   (''arguments'', PDict [(''city'', PStr ''Paris'')])]),
               (''id'', PInt 1)])
       [(''Content-Type'', ''application/json'')] [] = (Inr (dumps error_body), [])"
    by code_simp
  have decoded: "json_loads (json ?app) (dumps error_body) = Inr error_body"
    by code_simp
  note run = execute_http_tool_envelope
         [of ?app "''http://svc-a/mcp''" "''getWeather''" "PDict [(''city'', PStr ''Paris'')]" "[]"
             "dumps error_body" "[]" error_body, THEN conjunct2, rule_format, OF conjI,
          OF post decoded]
  show ?thesis
    by (intro conjI post decoded run)
qed

section \<open>Properties of the dispatcher\<close>

lemma cancelled_in_append: "cancelled_in (t1 @ t2) \<longleftrightarrow> cancelled_in t1 \<or> cancelled_in t2"
  by (auto simp: cancelled_in_def)

lemma traces_return: "traces_cancellation (io_return x)"
  by (simp add: traces_cancellation_def io_return_def)

lemma traces_raise: "traces_cancellation (io_raise (Exception msg))"
  by (simp add: traces_cancellation_def io_raise_def)

lemma traces_call: "traces_cancellation (io_call c f)"
  by (auto simp: traces_cancellation_def io_call_def cancelled_in_def split: prod.splits sum.splits)

lemma traces_bind:
  assumes "traces_cancellation m" "\<And>x. traces_cancellation (f x)"
  shows "traces_cancellation (io_bind m f)"
  unfolding traces_cancellation_def
proof (intro allI impI)
  fix w w1 t
  assume run: "io_bind m f w = (Inl CancelledError, w1, t)"
  obtain r wa ta where m: "m w = (r, wa, ta)" by (metis prod.exhaust)
  show "cancelled_in t"
  proof (cases r)
    case (Inl e)
    with run m assms(1) show ?thesis
      by (auto simp: io_bind_def traces_cancellation_def)
  next
    case (Inr x)
    obtain r2 wb tb where f: "f x wa = (r2, wb, tb)" by (metis prod.exhaust)
    with run m Inr have "r2 = Inl CancelledError" "t = ta @ tb"
      by (simp_all add: io_bind_def)
    with f assms(2) [of x] show ?thesis
      by (auto simp: traces_cancellation_def cancelled_in_append)
  qed
qed

lemma traces_except:
  assumes "traces_cancellation m" "\<And>msg. traces_cancellation (h msg)"
  shows "traces_cancellation (io_except m h)"
  unfolding traces_cancellation_def
proof (intro allI impI)
  fix w w1 t
  assume run: "io_except m h w = (Inl CancelledError, w1, t)"
  obtain r wa ta where m: "m w = (r, wa, ta)" by (metis prod.exhaust)
  show "cancelled_in t"
  proof (cases r)
    case (Inl e)
    show ?thesis
    proof (cases e)
      case (Exception msg)
      obtain r2 wb tb where h: "h msg wa = (r2, wb, tb)" by (metis prod.exhaust)
      with run m Inl Exception have "r2 = Inl CancelledError" "t = ta @ tb"
        by (simp_all add: io_except_def)
      with h assms(2) [of msg] show ?thesis
        by (auto simp: traces_cancellation_def cancelled_in_append)
    next
      case CancelledError
      with run m Inl assms(1) show ?thesis
        by (auto simp: io_except_def traces_cancellation_def)
    qed
  next
    case (Inr x)
    with run m show ?thesis by (simp add: io_except_def)
  qed
qed

lemma traces_generate_embedding: "traces_cancellation (generate_embedding env text)"
  unfolding generate_embedding_def
  by (intro traces_bind traces_call) (auto intro: traces_raise traces_return split: list.splits)

lemma field_Exception: "field d k = Inl e \<Longrightarrow> \<exists>msg. e = Exception msg"
  by (auto simp: field_def split: option.splits)

lemma result_of_doc_Exception: "result_of_doc d = Inl e \<Longrightarrow> \<exists>msg. e = Exception msg"
  by (auto simp: result_of_doc_def and_then_def dest: field_Exception split: sum.splits)

lemma process_results_Exception: "process_results ds = Inl e \<Longrightarrow> \<exists>msg. e = Exception msg"
  by (induction ds arbitrary: e)
     (auto simp: and_then_def dest: result_of_doc_Exception split: sum.splits)

lemma traces_search_server: "traces_cancellation (search_server env query top_k)"
  unfolding search_server_def
  by (intro traces_bind traces_call traces_generate_embedding)
     (auto intro: traces_raise traces_return dest: process_results_Exception split: sum.splits)

lemma traces_get_server_endpoint: "traces_cancellation (get_server_endpoint env name)"
  unfolding get_server_endpoint_def probe_both_def not_found_def
  by (intro traces_bind traces_except traces_search_server traces_return)
     (auto intro: traces_raise traces_return traces_bind traces_search_server split: option.splits)

lemma traces_service_get_server_endpoint:
  "traces_cancellation (service_get_server_endpoint app name)"
  unfolding service_get_server_endpoint_def
  by (cases "discovery_service app") (simp_all add: traces_get_server_endpoint traces_return)

lemma traces_execute_http_tool:
  "traces_cancellation (execute_http_tool app endpoint tool_name parameters)"
  unfolding execute_http_tool_def decode_def
  by (intro traces_bind traces_call)
     (auto intro: traces_raise traces_return split: sum.splits)

lemma run_exits_cancelled:
  "run_exits tenv stack exc w = (Some CancelledError, w1, t) \<Longrightarrow>
     exc = Some CancelledError \<or> cancelled_in t"
proof (induction stack arbitrary: exc w t)
  case Nil
  then show ?case by simp
next
  case (Cons r rs)
  obtain o1 wa where c: "aexit tenv r exc w = (o1, wa)"
    by (metis prod.exhaust)
  show ?case
  proof (cases o1)
    case (Inl e)
    obtain x' w' tr where rest: "run_exits tenv rs (Some e) wa = (x', w', tr)"
      by (metis prod.exhaust)
    with Cons.prems c Inl have t: "t = (exit_call r, Raised e) # tr" "x' = Some CancelledError" "w' = w1"
      by (simp_all add: io_call_def)
    with Cons.IH [of "Some e" wa tr] rest show ?thesis
      by (auto simp: cancelled_in_def)
  next
    case (Inr suppress)
    obtain x' w' tr where rest:
      "run_exits tenv rs (if suppress then None else exc) wa = (x', w', tr)"
      by (metis prod.exhaust)
    with Cons.prems c Inr have t: "t = (exit_call r, Returned) # tr" "x' = Some CancelledError" "w' = w1"
      by (simp_all add: io_call_def)
    with Cons.IH [of "if suppress then None else exc" wa tr] rest show ?thesis
      by (auto simp: cancelled_in_def split: if_splits)
  qed
qed

lemma sse_body_cancelled:
  "sse_body app endpoint tool_name parameters (w, []) = (Inl CancelledError, (w1, stack), t) \<Longrightarrow>
     cancelled_in t"
  by (drule sse_body_shapes) (auto simp: cancelled_in_def)

lemma traces_execute_sse_tool:
  "traces_cancellation (execute_sse_tool app endpoint tool_name parameters)"
  unfolding traces_cancellation_def
proof (intro allI impI)
  fix w w1 t
  assume "execute_sse_tool app endpoint tool_name parameters w = (Inl CancelledError, w1, t)"
  then show "cancelled_in t"
  proof (cases rule: execute_sse_tool_split)
    case (1 rb wb stack tb x tx)
    show ?thesis
    proof (cases x)
      case None
      with 1 sse_body_cancelled [of app endpoint tool_name parameters w wb stack tb]
      show ?thesis by (simp add: cancelled_in_append)
    next
      case (Some e)
      with 1 run_exits_cancelled [of "transport app" stack None wb w1 tx]
      show ?thesis by (simp add: cancelled_in_append)
    qed
  qed
qed

lemma exec_mcp_tool_unresolved:
  "service_get_server_endpoint app name w = (Inl e, w1, t1) \<Longrightarrow>
     exec_mcp_tool app name tool_name parameters w =
       ((case e of Exception msg \<Rightarrow> Inr (error_payload app msg)
         | CancelledError \<Rightarrow> Inl CancelledError), w1, t1)"
  by (cases e) (simp_all add: exec_mcp_tool_def io_except_def io_bind_def io_return_def)

lemma exec_mcp_tool_resolved:
  assumes "service_get_server_endpoint app name w = (Inr endpoint, w1, t1)"
    and "(if is_sse app endpoint
          then execute_sse_tool app endpoint tool_name parameters
          else execute_http_tool app endpoint tool_name parameters) w1 = (r, w2, t2)"
  shows "exec_mcp_tool app name tool_name parameters w =
       ((case r of Inl (Exception msg) \<Rightarrow> Inr (error_payload app msg)
         | Inl CancelledError \<Rightarrow> Inl CancelledError
         | Inr out \<Rightarrow> Inr out), w2, t1 @ t2)"
  using assms
  by (simp add: exec_mcp_tool_def io_except_def io_bind_def io_return_def
      split: sum.splits exn.splits)

text \<open>
  C1. \<^verbatim>\<open>exec_mcp_tool\<close> never raises an exception of class \<^verbatim>\<open>Exception\<close>: whatever the
  registry, the transports and the remote service do, its outcome is a returned string,
  unless an awaited call was cancelled (a \<^verbatim>\<open>CancelledError\<close> is not a failure of a step and
  is not caught by \<^verbatim>\<open>except Exception\<close>). When the endpoint resolution or the selected
  transport raises an exception with message \<open>msg\<close>, the returned string is the
  serialization of the payload \<^verbatim>\<open>{"error": msg}\<close>.
\<close>

theorem exec_mcp_tool_never_raises:
  assumes "exec_mcp_tool app name tool_name parameters w = (r, w1, t)"
  shows "(\<forall>msg. r \<noteq> Inl (Exception msg)) \<and>
     ((\<forall>c. (c, Raised CancelledError) \<notin> set t) \<longrightarrow> (\<exists>out. r = Inr out)) \<and>
     (\<forall>msg w2 t2. service_get_server_endpoint app name w = (Inl (Exception msg), w2, t2) \<longrightarrow>
        r = Inr (json_dumps (json app) (PDict [(''error'', PStr msg)]))) \<and>
     (\<forall>endpoint msg w2 t2 w3 t3.
        service_get_server_endpoint app name w = (Inr endpoint, w2, t2) \<and>
        (if contains ''sse'' (lower endpoint) \<and> have_sse_support app
         then execute_sse_tool app endpoint tool_name parameters
         else execute_http_tool app endpoint tool_name parameters) w2 =
          (Inl (Exception msg), w3, t3) \<longrightarrow>
        r = Inr (json_dumps (json app) (PDict [(''error'', PStr msg)])))"
proof -
  obtain a wa ta where res: "service_get_server_endpoint app name w = (a, wa, ta)"
    by (metis prod.exhaust)
  show ?thesis
  proof (cases a)
    case (Inl e)
    note unresolved = exec_mcp_tool_unresolved [OF res [unfolded Inl], of tool_name parameters]
    show ?thesis
    proof (cases e)
      case (Exception msg)
      with unresolved assms res Inl show ?thesis
        by (simp add: error_payload_def)
    next
      case CancelledError
      with traces_service_get_server_endpoint [of app name] res Inl
      have "cancelled_in ta"
        by (auto simp: traces_cancellation_def)
      with unresolved assms res Inl CancelledError show ?thesis
        by (auto simp: cancelled_in_def)
    qed
  next
    case (Inr endpoint)
    let ?run = "if is_sse app endpoint
          then execute_sse_tool app endpoint tool_name parameters
          else execute_http_tool app endpoint tool_name parameters"
    obtain b wb tb where tr: "?run wa = (b, wb, tb)"
      by (metis prod.exhaust)
    note resolved = exec_mcp_tool_resolved [OF res [unfolded Inr] tr]
    have traced: "traces_cancellation ?run"
      by (simp add: traces_execute_sse_tool traces_execute_http_tool)
    show ?thesis
    proof (cases b)
      case (Inr out)
      with resolved assms res \<open>a = Inr endpoint\<close> tr show ?thesis
        by (auto simp: is_sse_def)
    next
      case (Inl e)
      show ?thesis
      proof (cases e)
        case (Exception msg)
        with resolved assms res \<open>a = Inr endpoint\<close> tr Inl show ?thesis
          by (auto simp: is_sse_def error_payload_def)
      next
        case CancelledError
        with traced tr Inl have "cancelled_in tb"
          by (auto simp: traces_cancellation_def)
        with resolved assms res \<open>a = Inr endpoint\<close> tr Inl CancelledError show ?thesis
          by (auto simp: is_sse_def cancelled_in_def)
      qed
    qed
  qed
qed

theorem exec_mcp_tool_never_raises_witness:
  "exec_mcp_tool (router_double\<lparr>registry := store_env provider_down closeness\<rparr>) ''svc-a''
      ''getWeather'' (PDict [(''city'', PStr ''Paris'')]) [svc_a] =
     (Inr (dumps (PDict [(''error'', PStr ''Server 'svc-a' not found'')])), [svc_a],
      [(TextEmbedding_call ''svc-a'', Returned)]) \<and>
   (\<forall>c. (c, Raised CancelledError) \<notin> set [(TextEmbedding_call ''svc-a'', Returned)]) \<and>
   (\<exists>out. (Inr (dumps (PDict [(''error'', PStr ''Server 'svc-a' not found'')])) :: exn + string)
       = Inr out) \<and>
   exec_mcp_tool (router_double\<lparr>transport := unreachable_remote\<rparr>) ''svc-a''
      ''getWeather'' (PDict [(''city'', PStr ''Paris'')]) [svc_a] =
     (Inr (dumps (PDict [(''error'', PStr ''All connection attempts failed'')])), [svc_a],
      narrow_trace ''svc-a'' @
      [(AsyncClient_post ''http://svc-a/mcp''
          (json_rpc_request ''getWeather'' (PDict [(''city'', PStr ''Paris'')])) post_headers,
        Raised (Exception ''All connection attempts failed''))]) \<and>
   (\<forall>msg. (Inr (dumps (PDict [(''error'', PStr ''All connection attempts failed'')]))
              :: exn + string) \<noteq> Inl (Exception msg))"
proof -
  have down: "exec_mcp_tool (router_double\<lparr>registry := store_env provider_down closeness\<rparr>)
      ''svc-a'' ''getWeather'' (PDict [(''city'', PStr ''Paris'')]) [svc_a] =
     (Inr (dumps (PDict [(''error'', PStr ''Server 'svc-a' not found'')])), [svc_a],
      [(TextEmbedding_call ''svc-a'', Returned)])"
    by code_simp
  have unreachable: "exec_mcp_tool (router_double\<lparr>transport := unreachable_remote\<rparr>) ''svc-a''
      ''getWeather'' (PDict [(''city'', PStr ''Paris'')]) [svc_a] =
     (Inr (dumps (PDict [(''error'', PStr ''All connection attempts failed'')])), [svc_a],
      narrow_trace ''svc-a'' @
      [(AsyncClient_post ''http://svc-a/mcp''
          (json_rpc_request ''getWeather'' (PDict [(''city'', PStr ''Paris'')])) post_headers,
        Raised (Exception ''All connection attempts failed''))])"
    by code_simp
  have quiet: "\<forall>c. (c, Raised CancelledError) \<notin> set [(TextEmbedding_call ''svc-a'', Returned)]"
    by simp
  from exec_mcp_tool_never_raises [OF down] exec_mcp_tool_never_raises [OF unreachable]
    down unreachable quiet
  show ?thesis
    by blast
qed



section \<open>Properties of registration\<close>

lemma keyed_store_simps:
  "embedding_call (keyed_store mode emb sim) text w = (emb text, w)"
  "collection_insert (keyed_store mode emb sim) d w =
     (Inr (fst (store_write mode d w)), snd (store_write mode d w))"
  "collection_query (keyed_store mode emb sim) q k fs w = (Inr (store_answer sim q k fs w), w)"
  by (simp_all add: keyed_store_def)

lemma generate_embedding_store:
  "generate_embedding (keyed_store mode emb sim) text w = (r, w1, t) \<Longrightarrow> w1 = w"
  by (auto simp: generate_embedding_def keyed_store_simps io_bind_def io_call_def io_raise_def
      io_return_def split: prod.splits sum.splits if_splits list.splits)

lemma add_server_cases:
  assumes "add_server (keyed_store mode emb sim) name descr endpoint tls w = (r, w1, t)"
  obtains (no_write) "w1 = w" "\<And>out. r \<noteq> Inr out"
        | (written) v where
            "w1 = snd (store_write mode (registered_doc name v descr endpoint tls) w)"
            "(\<exists>out. r = Inr out) \<longleftrightarrow> fst (store_write mode (registered_doc name v descr endpoint tls) w)"
proof -
  obtain a wa ta where g: "generate_embedding (keyed_store mode emb sim) descr w = (a, wa, ta)"
    by (metis prod.exhaust)
  then have wa: "wa = w" by (rule generate_embedding_store)
  show thesis
  proof (cases a)
    case (Inl e)
    with assms g wa have "w1 = w" "r = Inl e"
      by (simp_all add: add_server_def io_bind_def)
    then show thesis by (intro no_write) simp_all
  next
    case (Inr v)
    with assms g wa
    have "w1 = snd (store_write mode (registered_doc name v descr endpoint tls) w)"
      "(\<exists>out. r = Inr out) \<longleftrightarrow> fst (store_write mode (registered_doc name v descr endpoint tls) w)"
      by (auto simp: add_server_def io_bind_def io_call_def io_return_def io_raise_def
          keyed_store_simps Let_def registered_doc_def split: if_splits)
    then show thesis by (rule written)
  qed
qed

lemma store_upsert_same_id: "filter (\<lambda>x. doc_id x = doc_id d) (store_upsert d w) = [d]"
proof -
  have "filter (\<lambda>x. doc_id x = doc_id d) (filter (\<lambda>x. doc_id x \<noteq> doc_id d) w) = []"
    by (induction w) auto
  then show ?thesis by (simp add: store_upsert_def)
qed

lemma store_upsert_other_ids:
  "filter (\<lambda>x. doc_id x \<noteq> doc_id d) (store_upsert d w) = filter (\<lambda>x. doc_id x \<noteq> doc_id d) w"
  by (simp add: store_upsert_def)

lemma store_upsert_member: "x \<in> set (store_upsert d w) \<Longrightarrow> doc_id x = doc_id d \<Longrightarrow> x = d"
  by (auto simp: store_upsert_def)

lemma distinct_ids_one:
  "distinct (map doc_id w) \<Longrightarrow> name \<in> doc_id ` set w \<Longrightarrow>
     \<exists>x. filter (\<lambda>x. doc_id x = name) w = [x]"
proof (induction w)
  case Nil
  then show ?case by simp
next
  case (Cons d w)
  show ?case
  proof (cases "doc_id d = name")
    case True
    with Cons.prems(1) have "name \<notin> doc_id ` set w"
      by simp
    then have "filter (\<lambda>x. doc_id x = name) w = []"
      by (auto simp: filter_empty_conv)
    with True show ?thesis by simp
  next
    case False
    with Cons show ?thesis by auto
  qed
qed

lemma registered_doc_id [simp]: "doc_id (registered_doc name v descr endpoint tls) = name"
  by (simp add: registered_doc_def)

lemma add_server_stored:
  assumes "add_server (keyed_store mode emb sim) name descr endpoint tls w = (Inr out, w1, t)"
    and "mode = Overwrite \<or> name \<notin> doc_id ` set w"
  shows "\<exists>v. w1 = store_upsert (registered_doc name v descr endpoint tls) w"
  using assms(1)
proof (cases rule: add_server_cases)
  case no_write
  from no_write(2) [of out] show ?thesis by simp
next
  case (written v)
  with assms(2) show ?thesis
    by (auto simp: store_write_def split: on_existing.splits)
qed

lemma first_registration:
  assumes "add_server (keyed_store mode emb sim) name descr endpoint tls w = (Inr out, w1, t)"
    and "distinct (map doc_id w)"
  shows "(\<exists>x. filter (\<lambda>x. doc_id x = name) w1 = [x]) \<and>
     filter (\<lambda>x. doc_id x \<noteq> name) w1 = filter (\<lambda>x. doc_id x \<noteq> name) w"
  using assms(1)
proof (cases rule: add_server_cases)
  case no_write
  from no_write(2) [of out] show ?thesis by simp
next
  case (written v)
  let ?d = "registered_doc name v descr endpoint tls"
  show ?thesis
  proof (cases "mode = Overwrite \<or> name \<notin> doc_id ` set w")
    case True
    with written have "w1 = store_upsert ?d w"
      by (auto simp: store_write_def split: on_existing.splits)
    with store_upsert_same_id [of ?d w] store_upsert_other_ids [of ?d w] show ?thesis
      by simp
  next
    case False
    with written have "w1 = w" "name \<in> doc_id ` set w"
      by (auto simp: store_write_def split: on_existing.splits)
    with distinct_ids_one [OF assms(2)] show ?thesis by simp
  qed
qed

text \<open>
  C5, as stated, fails: \<^verbatim>\<open>add_server\<close> writes with \<^verbatim>\<open>collection.insert\<close> and has no update
  or upsert anywhere. Over a store whose insert leaves a stored id untouched, registering
  \<^verbatim>\<open>svc-a\<close> a second time, with another description and endpoint, leaves the record of
  the first registration in place, whether the store reports the refused insert as a
  success (the second registration returns its success message) or as a failure (the
  second registration raises).
\<close>

theorem reregistration_keeps_first:
  "add_server (keyed_store (Keep True) provider_ok closeness) ''svc-a'' ''forecast''
      ''http://old-a/mcp'' ''[]'' [] =
     (Inr (registered ''svc-a''), [svc_a_old], insert_trace ''forecast'' svc_a_old) \<and>
   add_server (keyed_store (Keep True) provider_ok closeness) ''svc-a'' ''weather lookup''
      ''http://svc-a/mcp'' ''[]'' [svc_a_old] =
     (Inr (registered ''svc-a''), [svc_a_old], insert_trace ''weather lookup'' svc_a) \<and>
   add_server (keyed_store (Keep False) provider_ok closeness) ''svc-a'' ''weather lookup''
      ''http://svc-a/mcp'' ''[]'' [svc_a_old] =
     (Inl (Exception ''Failed to insert server 'svc-a' into DashVector''), [svc_a_old],
      insert_trace ''weather lookup'' svc_a)"
  by code_simp

text \<open>
  C5, amended. In a collection whose ids are distinct, registering the same identity twice
  leaves exactly one stored record for that identity and leaves the records of the other
  identities as they were. That record holds the fields of the most recent registration
  when the write of the store overwrites a stored id and that registration succeeds; when
  the write keeps a stored id, as an insert does, the second registration changes nothing.
\<close>

theorem register_twice:
  assumes "distinct (map doc_id w)"
    and "add_server (keyed_store mode emb sim) name descr1 endpoint1 tls1 w = (Inr out1, w1, t1)"
    and "add_server (keyed_store mode emb sim) name descr2 endpoint2 tls2 w1 = (r2, w2, t2)"
  shows "(\<exists>x. filter (\<lambda>x. doc_id x = name) w2 = [x]) \<and>
     filter (\<lambda>x. doc_id x \<noteq> name) w2 = filter (\<lambda>x. doc_id x \<noteq> name) w \<and>
     (mode = Overwrite \<and> (\<exists>out2. r2 = Inr out2) \<longrightarrow>
        (\<exists>v. filter (\<lambda>x. doc_id x = name) w2 =
           [\<lparr>doc_id = name, doc_vector = v,
             doc_fields = service_metadata descr2 endpoint2 tls2, doc_score = 0\<rparr>])) \<and>
     ((\<exists>ok. mode = Keep ok) \<longrightarrow> w2 = w1)"
proof -
  from first_registration [OF assms(2) assms(1)] obtain x where
    one: "filter (\<lambda>x. doc_id x = name) w1 = [x]"
    and others: "filter (\<lambda>x. doc_id x \<noteq> name) w1 = filter (\<lambda>x. doc_id x \<noteq> name) w"
    by blast
  from one have "x \<in> set (filter (\<lambda>x. doc_id x = name) w1)"
    by simp
  then have stored: "name \<in> doc_id ` set w1"
    by force
  from assms(3) show ?thesis
  proof (cases rule: add_server_cases)
    case no_write
    with one others show ?thesis
      by (cases mode) auto
  next
    case (written v)
    let ?d = "registered_doc name v descr2 endpoint2 tls2"
    show ?thesis
    proof (cases mode)
      case Overwrite
      with written have "w2 = store_upsert ?d w1"
        by (simp add: store_write_def)
      with store_upsert_same_id [of ?d w1] store_upsert_other_ids [of ?d w1] others Overwrite
      show ?thesis
        by (auto simp: registered_doc_def)
    next
      case (Keep ok)
      with written stored have "w2 = w1"
        by (simp add: store_write_def)
      with one others Keep show ?thesis by simp
    qed
  qed
qed

theorem register_twice_witness:
  "distinct (map doc_id [decoy 0]) \<and>
   add_server (keyed_store Overwrite provider_ok closeness) ''svc-a'' ''forecast''
      ''http://old-a/mcp'' ''[]'' [decoy 0] =
     (Inr (registered ''svc-a''), [decoy 0, svc_a_old], insert_trace ''forecast'' svc_a_old) \<and>
   add_server (keyed_store Overwrite provider_ok closeness) ''svc-a'' ''weather lookup''
      ''http://svc-a/mcp'' ''[]'' [decoy 0, svc_a_old] =
     (Inr (registered ''svc-a''), [decoy 0, svc_a], insert_trace ''weather lookup'' svc_a) \<and>
   (\<exists>v. filter (\<lambda>x. doc_id x = ''svc-a'') [decoy 0, svc_a] =
      [\<lparr>doc_id = ''svc-a'', doc_vector = v,
        doc_fields = service_metadata ''weather lookup'' ''http://svc-a/mcp'' ''[]'',
        doc_score = 0\<rparr>]) \<and>
   filter (\<lambda>x. doc_id x \<noteq> ''svc-a'') [decoy 0, svc_a] =
     filter (\<lambda>x. doc_id x \<noteq> ''svc-a'') [decoy 0] \<and>
   add_server (keyed_store (Keep True) provider_ok closeness) ''svc-a'' ''forecast''
      ''http://old-a/mcp'' ''[]'' [decoy 0] =
     (Inr (registered ''svc-a''), [decoy 0, svc_a_old], insert_trace ''forecast'' svc_a_old) \<and>
   add_server (keyed_store (Keep True) provider_ok closeness) ''svc-a'' ''weather lookup''
      ''http://svc-a/mcp'' ''[]'' [decoy 0, svc_a_old] =
     (Inr (registered ''svc-a''), [decoy 0, svc_a_old], insert_trace ''weather lookup'' svc_a) \<and>
   (\<exists>x. filter (\<lambda>x. doc_id x = ''svc-a'') [decoy 0, svc_a_old] = [x])"
proof -
  have ids: "distinct (map doc_id [decoy 0])"
    by simp
  have first: "add_server (keyed_store Overwrite provider_ok closeness) ''svc-a'' ''forecast''
      ''http://old-a/mcp'' ''[]'' [decoy 0] =
     (Inr (registered ''svc-a''), [decoy 0, svc_a_old], insert_trace ''forecast'' svc_a_old)"
    by code_simp
  have second: "add_server (keyed_store Overwrite provider_ok closeness) ''svc-a''
      ''weather lookup'' ''http://svc-a/mcp'' ''[]'' [decoy 0, svc_a_old] =
     (Inr (registered ''svc-a''), [decoy 0, svc_a], insert_trace ''weather lookup'' svc_a)"
    by code_simp
  have kept_first: "add_server (keyed_store (Keep True) provider_ok closeness) ''svc-a''
      ''forecast'' ''http://old-a/mcp'' ''[]'' [decoy 0] =
     (Inr (registered ''svc-a''), [decoy 0, svc_a_old], insert_trace ''forecast'' svc_a_old)"
    by code_simp
  have kept_second: "add_server (keyed_store (Keep True) provider_ok closeness) ''svc-a''
      ''weather lookup'' ''http://svc-a/mcp'' ''[]'' [decoy 0, svc_a_old] =
     (Inr (registered ''svc-a''), [decoy 0, svc_a_old], insert_trace ''weather lookup'' svc_a)"
    by code_simp
  from register_twice [OF ids first second] register_twice [OF ids kept_first kept_second]
    ids first second kept_first kept_second
  show ?thesis
    by (intro conjI) blast+
qed

section \<open>Properties of registration followed by resolution\<close>

lemma store_query_member:
  "x \<in> set (store_query sim q k fs docs) \<Longrightarrow> \<exists>d \<in> set docs. x = scored sim q fs d"
  by (auto simp: store_query_def dest!: in_set_takeD)

lemma process_results_member:
  "process_results ds = Inr rs \<Longrightarrow> r \<in> set rs \<Longrightarrow> \<exists>d \<in> set ds. result_of_doc d = Inr r"
  by (induction ds arbitrary: rs) (auto simp: and_then_def split: sum.splits)

lemma result_of_doc_name: "result_of_doc d = Inr r \<Longrightarrow> server_name r = doc_id d"
  by (auto simp: result_of_doc_def and_then_def split: sum.splits)

lemma process_results_complete:
  "process_results ds = Inr rs \<Longrightarrow> d \<in> set ds \<Longrightarrow> \<exists>r \<in> set rs. result_of_doc d = Inr r"
  by (induction ds arbitrary: rs) (auto simp: and_then_def split: sum.splits)

lemma store_query_all:
  "length docs \<le> nat k \<Longrightarrow> set (store_query sim q k fs docs) = scored sim q fs ` set docs"
  by (simp add: store_query_def)

lemma store_upsert_holds: "d \<in> set (store_upsert d w)"
  by (simp add: store_upsert_def)

lemma search_server_answer:
  assumes "search_server (keyed_store mode emb sim) query top_k w = (Inr rs, w1, t)"
  obtains qv where "w1 = w" "0 < top_k"
    "process_results (store_query sim qv top_k output_fields w) = Inr rs"
proof -
  obtain a wa ta where g: "generate_embedding (keyed_store mode emb sim) query w = (a, wa, ta)"
    by (metis prod.exhaust)
  then have wa: "wa = w" by (rule generate_embedding_store)
  show ?thesis
  proof (cases a)
    case (Inl e)
    with assms g show ?thesis by (simp add: search_server_def io_bind_def)
  next
    case (Inr qv)
    with assms g wa
    have "w1 = w" "0 < top_k"
      "process_results (store_query sim qv top_k output_fields w) = Inr rs"
      by (auto simp: search_server_def io_bind_def io_call_def io_return_def io_raise_def
          keyed_store_simps store_answer_def split: if_splits sum.splits)
    then show ?thesis by (rule that)
  qed
qed

lemma search_server_store:
  assumes "search_server (keyed_store mode emb sim) query top_k w = (Inr rs, w1, t)"
  shows "w1 = w \<and> (\<forall>r \<in> set rs. \<exists>d \<in> set w. \<exists>qv.
           result_of_doc (scored sim qv output_fields d) = Inr r)"
proof -
  from assms obtain qv where w1: "w1 = w"
    and rs: "process_results (store_query sim qv top_k output_fields w) = Inr rs"
    by (rule search_server_answer)
  have "\<exists>d \<in> set w. \<exists>qv. result_of_doc (scored sim qv output_fields d) = Inr r"
    if "r \<in> set rs" for r
  proof -
    from process_results_member [OF rs that]
    obtain x where x: "x \<in> set (store_query sim qv top_k output_fields w)"
        "result_of_doc x = Inr r"
      by blast
    from store_query_member [OF x(1)] x(2) show ?thesis
      by blast
  qed
  with w1 show ?thesis
    by blast
qed

lemma search_server_small:
  assumes "search_server (keyed_store mode emb sim) query top_k w = (Inr rs, w1, t)"
    and "length w \<le> nat top_k" "d \<in> set w"
  shows "doc_id d \<in> server_name ` set rs"
proof -
  from assms(1) obtain qv where
    rs: "process_results (store_query sim qv top_k output_fields w) = Inr rs"
    by (rule search_server_answer)
  from assms(2,3) have "scored sim qv output_fields d \<in>
      set (store_query sim qv top_k output_fields w)"
    by (simp add: store_query_all)
  from process_results_complete [OF rs this] obtain r where
    "r \<in> set rs" "result_of_doc (scored sim qv output_fields d) = Inr r"
    by blast
  then show ?thesis
    by (force dest: result_of_doc_name simp: scored_def)
qed

lemma project_service_metadata:
  "project output_fields
     [(''server_description'', descr), (''server_endpoint'', endpoint), (''tools'', tls)] =
     [(''server_description'', descr), (''server_endpoint'', endpoint), (''tools'', tls)]"
  by (simp add: project_def output_fields_def)

lemma result_of_registered:
  assumes "result_of_doc (scored sim qv output_fields (registered_doc name v descr endpoint tls)) =
     Inr r"
  shows "r = \<lparr>server_name = name, server_description = descr, server_endpoint = endpoint,
               tools = tls, score = sim qv v\<rparr>"
  using assms
  by (simp add: result_of_doc_def scored_def project_service_metadata field_def and_then_def
      service_metadata_def registered_doc_def)

lemma registered_result:
  assumes reg: "add_server (keyed_store mode emb sim) name descr endpoint tls w = (Inr out, w1, t)"
    and stored: "mode = Overwrite \<or> name \<notin> doc_id ` set w"
    and search: "search_server (keyed_store mode emb sim) query top_k w1 = (Inr rs, w2, t2)"
    and r: "r \<in> set rs" "server_name r = name"
  shows "server_description r = descr \<and> server_endpoint r = endpoint \<and> tools r = tls"
proof -
  from add_server_stored [OF reg stored] obtain v where
    w1: "w1 = store_upsert (registered_doc name v descr endpoint tls) w"
    by blast
  from search_server_store [OF search] r(1) obtain d qv where
    d: "d \<in> set w1" "result_of_doc (scored sim qv output_fields d) = Inr r"
    by blast
  from d(2) r(2) have "doc_id d = name"
    by (auto dest: result_of_doc_name simp: scored_def)
  with d(1) w1 have "d = registered_doc name v descr endpoint tls"
    by (auto dest: store_upsert_member)
  with d(2) result_of_registered show ?thesis
    by fastforce
qed

lemma get_server_endpoint_narrow:
  "search_server env name 20 w = (Inr results, w1, t1) \<Longrightarrow>
   exact_match name results = Some endpoint \<Longrightarrow>
     get_server_endpoint env name w = (Inr endpoint, w1, t1)"
  by (simp add: get_server_endpoint_def probe_both_def io_bind_def io_except_def io_return_def)

lemma get_server_endpoint_broad:
  "search_server env name 20 w = (Inr results, w1, t1) \<Longrightarrow>
   exact_match name results = None \<Longrightarrow>
   search_server env [] 100 w1 = (Inr general_results, w2, t2) \<Longrightarrow>
   exact_match name general_results = Some endpoint \<Longrightarrow>
     get_server_endpoint env name w = (Inr endpoint, w2, t1 @ t2)"
  by (simp add: get_server_endpoint_def probe_both_def io_bind_def io_except_def io_return_def)

lemma get_server_endpoint_neither:
  "search_server env name 20 w = (Inr results, w1, t1) \<Longrightarrow>
   exact_match name results = None \<Longrightarrow>
   search_server env [] 100 w1 = (Inr general_results, w2, t2) \<Longrightarrow>
   exact_match name general_results = None \<Longrightarrow>
     get_server_endpoint env name w = (Inl (not_found name), w2, t1 @ t2)"
  by (simp add: get_server_endpoint_def probe_both_def io_bind_def io_except_def io_return_def
      io_raise_def)

lemma get_server_endpoint_broad_raises:
  "search_server env name 20 w = (Inr results, w1, t1) \<Longrightarrow>
   exact_match name results = None \<Longrightarrow>
   search_server env [] 100 w1 = (Inl (Exception m), w2, t2) \<Longrightarrow>
     get_server_endpoint env name w = (Inl (not_found name), w2, t1 @ t2)"
  by (simp add: get_server_endpoint_def probe_both_def io_bind_def io_except_def io_return_def
      io_raise_def)

lemma scored_decoy:
  "result_of_doc (scored sim q output_fields (decoy i)) = Inr (decoy_hit (sim q [5]) i)"
  by (simp add: result_of_doc_def scored_def decoy_def decoy_hit_def service_metadata_def
      project_service_metadata field_def and_then_def)

lemma store_upsert_fresh: "doc_id d \<notin> doc_id ` set w \<Longrightarrow> store_upsert d w = w @ [d]"
  by (induction w) (auto simp: store_upsert_def)

lemma process_results_decoys:
  "process_results (map (scored sim q output_fields \<circ> decoy) js) =
     Inr (map (decoy_hit (sim q [5])) js)"
  by (induction js) (simp_all add: scored_decoy and_then_def)

lemma store_query_crowded:
  assumes "nat k \<le> n" "sim q (doc_vector x) \<le> sim q [5]"
  shows "store_query sim q k fs (decoys n @ [x]) = map (scored sim q fs) (map decoy [0..<nat k])"
proof -
  let ?docs = "map (scored sim q fs) (decoys n @ [x])"
  have keys: "map (\<lambda>d. - doc_score d) ?docs =
      replicate n (- sim q [5]) @ [- sim q (doc_vector x)]"
    by (simp add: decoys_def scored_def decoy_def map_replicate_const comp_def)
  have "sorted (replicate n (- sim q [5]) @ [- sim q (doc_vector x)])"
    using assms(2) by (simp add: sorted_append)
  with keys have "sort_key (\<lambda>d. - doc_score d) ?docs = ?docs"
    by (simp add: sort_key_id_if_sorted)
  moreover have "take (nat k) ?docs = map (scored sim q fs) (map decoy [0..<nat k])"
    using assms(1) by (simp add: decoys_def take_map)
  ultimately show ?thesis
    by (simp add: store_query_def)
qed

lemma search_server_crowded:
  assumes "emb query = Inr \<lparr>status_code = 200, message = m, embeddings = [qv]\<rparr>"
    and "0 < k" "nat k \<le> n" "sim qv (doc_vector x) \<le> sim qv [5]"
  shows "search_server (keyed_store mode emb sim) query k (decoys n @ [x]) =
     (Inr (map (decoy_hit (sim qv [5])) [0..<nat k]), decoys n @ [x],
      [(TextEmbedding_call query, Returned), (Collection_query qv k output_fields, Returned)])"
  using assms
  by (simp add: search_server_def generate_embedding_def io_bind_def io_call_def io_return_def
      keyed_store_simps store_answer_def store_query_crowded process_results_decoys)

lemma decoy_hit_names: "exact_match ''svc-a'' (map (decoy_hit s) [0..<n]) = None"
  by (auto simp: exact_match_None decoy_hit_def)

text \<open>
  C4, as stated, fails: the lookup sees the first 20 results of the narrow probe and the first
  100 of the broad probe only. A service registered into a collection of 100 records that are
  all closer to both probes is stored and is not found, whether the embedding provider
  answers the empty text of the broad probe or refuses it.
\<close>

theorem register_hidden_by_crowd:
  "add_server (store_env provider_ok closeness) ''svc-a'' ''weather lookup'' ''http://svc-a/mcp''
      ''[]'' (decoys 100) =
     (Inr (registered ''svc-a''), decoys 100 @ [svc_a], insert_trace ''weather lookup'' svc_a) \<and>
   get_server_endpoint (store_env provider_ok closeness) ''svc-a'' (decoys 100 @ [svc_a]) =
     (Inl (not_found ''svc-a''), decoys 100 @ [svc_a], narrow_trace ''svc-a'' @ broad_trace) \<and>
   get_server_endpoint (store_env provider_no_empty closeness) ''svc-a'' (decoys 100 @ [svc_a]) =
     (Inl (not_found ''svc-a''), decoys 100 @ [svc_a],
      narrow_trace ''svc-a'' @ [(TextEmbedding_call [], Returned)])"
proof (intro conjI)
  have fresh: "doc_id svc_a \<notin> doc_id ` set (decoys 100)"
    by (auto simp: svc_a_def decoys_def decoy_def)
  have emb: "generate_embedding (keyed_store Overwrite provider_ok closeness) ''weather lookup''
      (decoys 100) =
      (Inr [14], decoys 100, [(TextEmbedding_call ''weather lookup'', Returned)])"
    by (simp add: generate_embedding_def io_bind_def io_call_def io_return_def keyed_store_simps
        provider_ok_def)
  show "add_server (store_env provider_ok closeness) ''svc-a'' ''weather lookup''
      ''http://svc-a/mcp'' ''[]'' (decoys 100) =
     (Inr (registered ''svc-a''), decoys 100 @ [svc_a], insert_trace ''weather lookup'' svc_a)"
    using store_upsert_fresh [OF fresh]
    by (simp add: store_env_def add_server_def io_bind_def emb io_call_def io_return_def
        keyed_store_simps store_write_def registered_def insert_trace_def svc_a_def Let_def)
  have narrow: "search_server (store_env provider_ok closeness) ''svc-a'' 20 (decoys 100 @ [svc_a]) =
     (Inr (map (decoy_hit 0) [0..<20]), decoys 100 @ [svc_a], narrow_trace ''svc-a'')"
    using search_server_crowded [of provider_ok "''svc-a''" "[]" "[5]" 20 100 closeness svc_a
        Overwrite]
    by (simp add: store_env_def provider_ok_def closeness_def svc_a_def narrow_trace_def)
  have broad: "search_server (store_env provider_ok closeness) [] 100 (decoys 100 @ [svc_a]) =
     (Inr (map (decoy_hit (- 25)) [0..<100]), decoys 100 @ [svc_a], broad_trace)"
    using search_server_crowded [of provider_ok "[]" "[]" "[0]" 100 100 closeness svc_a Overwrite]
    by (simp add: store_env_def provider_ok_def closeness_def svc_a_def broad_trace_def)
  show "get_server_endpoint (store_env provider_ok closeness) ''svc-a'' (decoys 100 @ [svc_a]) =
     (Inl (not_found ''svc-a''), decoys 100 @ [svc_a], narrow_trace ''svc-a'' @ broad_trace)"
    by (rule get_server_endpoint_neither [OF narrow decoy_hit_names broad decoy_hit_names])
  have narrow': "search_server (store_env provider_no_empty closeness) ''svc-a'' 20
      (decoys 100 @ [svc_a]) =
     (Inr (map (decoy_hit 0) [0..<20]), decoys 100 @ [svc_a], narrow_trace ''svc-a'')"
    using search_server_crowded [of provider_no_empty "''svc-a''" "[]" "[5]" 20 100 closeness svc_a
        Overwrite]
    by (simp add: store_env_def provider_no_empty_def provider_ok_def closeness_def svc_a_def
        narrow_trace_def)
  have broad': "search_server (store_env provider_no_empty closeness) [] 100
      (decoys 100 @ [svc_a]) =
     (Inl (Exception ''Failed to generate embedding: input is empty''), decoys 100 @ [svc_a],
      [(TextEmbedding_call [], Returned)])"
    by (simp add: store_env_def search_server_def generate_embedding_def io_bind_def io_call_def
        io_raise_def keyed_store_simps provider_no_empty_def)
  show "get_server_endpoint (store_env provider_no_empty closeness) ''svc-a''
      (decoys 100 @ [svc_a]) =
     (Inl (not_found ''svc-a''), decoys 100 @ [svc_a],
      narrow_trace ''svc-a'' @ [(TextEmbedding_call [], Returned)])"
    by (rule get_server_endpoint_broad_raises [OF narrow' decoy_hit_names broad'])
qed

text \<open>
  C4, amended. After a registration that succeeded and was written (the store overwrites, or
  the identity was not stored before), \<^verbatim>\<open>get_server_endpoint\<close> returns exactly the endpoint
  registered whenever the narrow probe, or failing it the broad probe, returns a result with
  that identity; the narrow probe returns one whenever it returns at all over a collection
  of at most 20 records.
\<close>

theorem register_then_resolve:
  assumes "add_server (keyed_store mode emb sim) name descr endpoint tls w = (Inr out, w1, t1)"
    and "mode = Overwrite \<or> name \<notin> doc_id ` set w"
  shows "(search_server (keyed_store mode emb sim) name 20 w1 = (Inr results, w2, t2) \<and>
      name \<in> server_name ` set results \<longrightarrow>
        get_server_endpoint (keyed_store mode emb sim) name w1 = (Inr endpoint, w2, t2)) \<and>
     (search_server (keyed_store mode emb sim) name 20 w1 = (Inr results, w2, t2) \<and>
      name \<notin> server_name ` set results \<and>
      search_server (keyed_store mode emb sim) [] 100 w2 = (Inr general_results, w3, t3) \<and>
      name \<in> server_name ` set general_results \<longrightarrow>
        get_server_endpoint (keyed_store mode emb sim) name w1 = (Inr endpoint, w3, t2 @ t3)) \<and>
     (search_server (keyed_store mode emb sim) name 20 w1 = (Inr results, w2, t2) \<and>
      length w1 \<le> 20 \<longrightarrow>
        get_server_endpoint (keyed_store mode emb sim) name w1 = (Inr endpoint, w2, t2))"
proof -
  have narrow: "get_server_endpoint (keyed_store mode emb sim) name w1 = (Inr endpoint, w2, t2)"
    if a: "search_server (keyed_store mode emb sim) name 20 w1 = (Inr results, w2, t2)"
      and b: "name \<in> server_name ` set results"
  proof -
    from b obtain r where r: "r \<in> set results" "server_name r = name"
        "exact_match name results = Some (server_endpoint r)"
      using exact_match_present by blast
    with registered_result [OF assms a r(1,2)]
    have "exact_match name results = Some endpoint" by simp
    with a show ?thesis
      by (simp add: get_server_endpoint_narrow)
  qed
  have broad: "get_server_endpoint (keyed_store mode emb sim) name w1 =
      (Inr endpoint, w3, t2 @ t3)"
    if a: "search_server (keyed_store mode emb sim) name 20 w1 = (Inr results, w2, t2)"
      and b: "name \<notin> server_name ` set results"
      and c: "search_server (keyed_store mode emb sim) [] 100 w2 = (Inr general_results, w3, t3)"
      and d: "name \<in> server_name ` set general_results"
  proof -
    from d obtain r where r: "r \<in> set general_results" "server_name r = name"
        "exact_match name general_results = Some (server_endpoint r)"
      using exact_match_present by blast
    from a have w2: "w2 = w1"
      using search_server_store by blast
    from c have c': "search_server (keyed_store mode emb sim) [] 100 w1 =
        (Inr general_results, w3, t3)"
      by (simp add: w2)
    from r registered_result [OF assms c' r(1,2)]
    have "exact_match name general_results = Some endpoint" by simp
    moreover from b have "exact_match name results = None"
      by (simp add: exact_match_None)
    ultimately show ?thesis
      using a c by (simp add: get_server_endpoint_broad)
  qed
  have small: "get_server_endpoint (keyed_store mode emb sim) name w1 = (Inr endpoint, w2, t2)"
    if a: "search_server (keyed_store mode emb sim) name 20 w1 = (Inr results, w2, t2)"
      and b: "length w1 \<le> 20"
  proof -
    from add_server_stored [OF assms] obtain v where
      w1: "w1 = store_upsert (registered_doc name v descr endpoint tls) w"
      by blast
    then have "registered_doc name v descr endpoint tls \<in> set w1"
      by (simp add: store_upsert_holds)
    from search_server_small [OF a _ this] b have "name \<in> server_name ` set results"
      by simp
    with a show ?thesis
      by (rule narrow)
  qed
  from narrow broad small show ?thesis
    by blast
qed

theorem register_then_resolve_witness:
  "add_server (keyed_store (Keep True) provider_ok closeness) ''svc-a'' ''weather lookup''
      ''http://svc-a/mcp'' ''[]'' [] =
     (Inr (registered ''svc-a''), [svc_a], insert_trace ''weather lookup'' svc_a) \<and>
   ''svc-a'' \<notin> doc_id ` set ([] :: doc list) \<and>
   search_server (keyed_store (Keep True) provider_ok closeness) ''svc-a'' 20 [svc_a] =
      (Inr [svc_a_hit (- 81)], [svc_a], narrow_trace ''svc-a'') \<and>
   ''svc-a'' \<in> server_name ` set [svc_a_hit (- 81)] \<and>
   get_server_endpoint (keyed_store (Keep True) provider_ok closeness) ''svc-a'' [svc_a] =
      (Inr ''http://svc-a/mcp'', [svc_a], narrow_trace ''svc-a'') \<and>
   add_server (keyed_store Overwrite provider_ok closeness) ''svc-a'' ''weather lookup''
      ''http://svc-a/mcp'' ''[]'' (decoys 20) =
     (Inr (registered ''svc-a''), decoys 20 @ [svc_a], insert_trace ''weather lookup'' svc_a) \<and>
   search_server (keyed_store Overwrite provider_ok closeness) ''svc-a'' 20 (decoys 20 @ [svc_a]) =
      (Inr (map (decoy_hit 0) [0..<20]), decoys 20 @ [svc_a], narrow_trace ''svc-a'') \<and>
   ''svc-a'' \<notin> server_name ` set (map (decoy_hit 0) [0..<20]) \<and>
   search_server (keyed_store Overwrite provider_ok closeness) [] 100 (decoys 20 @ [svc_a]) =
      (Inr (map (decoy_hit (- 25)) [0..<20] @ [svc_a_hit (- 196)]), decoys 20 @ [svc_a],
       broad_trace) \<and>
   ''svc-a'' \<in> server_name ` set (map (decoy_hit (- 25)) [0..<20] @ [svc_a_hit (- 196)]) \<and>
   get_server_endpoint (keyed_store Overwrite provider_ok closeness) ''svc-a''
      (decoys 20 @ [svc_a]) =
      (Inr ''http://svc-a/mcp'', decoys 20 @ [svc_a], narrow_trace ''svc-a'' @ broad_trace) \<and>
   length [svc_a] \<le> 20"
proof -
  have reg0: "add_server (keyed_store (Keep True) provider_ok closeness) ''svc-a''
      ''weather lookup'' ''http://svc-a/mcp'' ''[]'' [] =
      (Inr (registered ''svc-a''), [svc_a], insert_trace ''weather lookup'' svc_a)"
    by code_simp
  have fresh: "''svc-a'' \<notin> doc_id ` set ([] :: doc list)"
    by simp
  have a: "search_server (keyed_store (Keep True) provider_ok closeness) ''svc-a'' 20 [svc_a] =
      (Inr [svc_a_hit (- 81)], [svc_a], narrow_trace ''svc-a'')"
    by code_simp
  have a': "''svc-a'' \<in> server_name ` set [svc_a_hit (- 81)]"
    by (simp add: svc_a_hit_def)
  have reg: "add_server (keyed_store Overwrite provider_ok closeness) ''svc-a'' ''weather lookup''
      ''http://svc-a/mcp'' ''[]'' (decoys 20) =
     (Inr (registered ''svc-a''), decoys 20 @ [svc_a], insert_trace ''weather lookup'' svc_a)"
    by code_simp
  have b: "search_server (keyed_store Overwrite provider_ok closeness) ''svc-a'' 20
      (decoys 20 @ [svc_a]) =
      (Inr (map (decoy_hit 0) [0..<20]), decoys 20 @ [svc_a], narrow_trace ''svc-a'')"
    by code_simp
  have b': "''svc-a'' \<notin> server_name ` set (map (decoy_hit 0) [0..<20])"
    by (auto simp: decoy_hit_def)
  have b2: "search_server (keyed_store Overwrite provider_ok closeness) [] 100
      (decoys 20 @ [svc_a]) =
      (Inr (map (decoy_hit (- 25)) [0..<20] @ [svc_a_hit (- 196)]), decoys 20 @ [svc_a],
       broad_trace)"
    by code_simp
  have b2': "''svc-a'' \<in> server_name ` set (map (decoy_hit (- 25)) [0..<20] @ [svc_a_hit (- 196)])"
    by (simp add: svc_a_hit_def)
  have a2: "length [svc_a] \<le> 20"
    by simp
  note small = register_then_resolve [OF reg0 disjI2, OF fresh, THEN conjunct2, THEN conjunct2,
      rule_format, OF conjI, OF a a2]
  note narrow = register_then_resolve [OF reg0 disjI2, OF fresh, THEN conjunct1, rule_format,
      OF conjI, OF a a']
  note broad = register_then_resolve [OF reg disjI1, OF refl, THEN conjunct2, THEN conjunct1,
     rule_format,
     OF conjI, OF b, OF conjI, OF b', OF conjI, OF b2 b2']
  from narrow small broad reg0 fresh a a' reg b b' b2 b2' a2 show ?thesis
    by (intro conjI)
qed

section \<open>Properties of the serialized operations\<close>











end
